theory Spec2Isabelle
  imports Main "HOL-Library.Sublist"
begin

section \<open>Errors\<close>

text \<open>
  A JavaScript exception is a value. \<open>Error m\<close> is \<open>new Error(m)\<close> (also an error of the
  client library carrying the message \<open>m\<close>), \<open>TypeError m\<close> a failed property access, and
  \<open>SystemError code syscall path\<close> an error of Node's \<open>fs\<close> module.
\<close>

datatype error = Error string | TypeError string | SystemError string string string

fun error_message :: "error \<Rightarrow> string" where
  "error_message (Error m) = m"
| "error_message (TypeError m) = m"
| "error_message (SystemError code syscall p) = code @ '': '' @ syscall @ '' '' @ p"

section \<open>Paths (Node's posix \<open>path\<close> module)\<close>

text \<open>The segments of a path between its separators; \<open>a//b\<close> has an empty segment.\<close>

fun segments :: "string \<Rightarrow> string list" where
  "segments [] = [[]]"
| "segments (c # cs) =
     (if c = CHR ''/'' then [] # segments cs
      else (case segments cs of [] \<Rightarrow> [[c]] | s # ss \<Rightarrow> (c # s) # ss))"

text \<open>
  \<open>normalizeString\<close>: the segments are pushed on a stack (kept reversed); an empty
  segment and \<open>.\<close> are dropped, \<open>..\<close> pops the last segment unless that is \<open>..\<close>
  itself, and is kept only where the path may climb above its start.
\<close>

fun normalizeString :: "bool \<Rightarrow> string list \<Rightarrow> string list \<Rightarrow> string list" where
  "normalizeString allowAboveRoot st [] = rev st"
| "normalizeString allowAboveRoot st (s # ss) =
     (if s = [] \<or> s = ''.'' then normalizeString allowAboveRoot st ss
      else if s = ''..'' then
        (case st of
           [] \<Rightarrow> normalizeString allowAboveRoot (if allowAboveRoot then [''..''] else []) ss
         | t # ts \<Rightarrow>
             if t \<noteq> ''..'' then normalizeString allowAboveRoot ts ss
             else normalizeString allowAboveRoot (if allowAboveRoot then ''..'' # st else st) ss)
      else normalizeString allowAboveRoot (s # st) ss)"

fun intercalate :: "string \<Rightarrow> string list \<Rightarrow> string" where
  "intercalate sep [] = []"
| "intercalate sep [s] = s"
| "intercalate sep (s # t # ss) = s @ sep @ intercalate sep (t # ss)"

definition isAbsolute :: "string \<Rightarrow> bool" where
  "isAbsolute p = (case p of [] \<Rightarrow> False | c # _ \<Rightarrow> c = CHR ''/'')"

definition normalize :: "string \<Rightarrow> string" where
  "normalize p =
     (if p = [] then ''.''
      else
        let trailingSeparator = (last p = CHR ''/'');
            body = intercalate ''/'' (normalizeString (\<not> isAbsolute p) [] (segments p))
        in if body = [] then
             (if isAbsolute p then ''/'' else if trailingSeparator then ''./'' else ''.'')
           else (if isAbsolute p then ''/'' else []) @ body
                @ (if trailingSeparator then ''/'' else []))"

text \<open>\<open>path.join\<close>: the non-empty arguments joined by the separator, then normalised.\<close>

definition path_join :: "string list \<Rightarrow> string" where
  "path_join args =
     (let joined = intercalate ''/'' (filter (\<lambda>a. a \<noteq> []) args)
      in if joined = [] then ''.'' else normalize joined)"

section \<open>The file system\<close>

text \<open>
  The file system is a table from canonical absolute paths (lists of names, the root
  directory being \<open>[]\<close>) to nodes. A symbolic link holds its target as a path string.
  The model has no permissions and no I/O faults: an operation fails only with
  \<open>ENOENT\<close>, \<open>ENOTDIR\<close>, \<open>ELOOP\<close> or \<open>EISDIR\<close>.
\<close>

datatype node = Dir | File | Link string

type_synonym entries = "(string list \<times> node) list"

text \<open>
  Path resolution, one segment at a time from the directory \<open>cur\<close>; a failure is the
  error code. Every symbolic link followed costs one unit of \<open>fuel\<close> (the kernel's
  bound on links per lookup). A file followed by a further segment is not a directory.
\<close>

fun resolve :: "nat \<Rightarrow> entries \<Rightarrow> string list \<Rightarrow> string list \<Rightarrow> string + string list" where
  "resolve fuel fs cur [] = Inr cur"
| "resolve fuel fs cur (s # ss) =
     (if s = [] \<or> s = ''.'' then resolve fuel fs cur ss
      else if s = ''..'' then resolve fuel fs (butlast cur) ss
      else
        (case map_of fs (cur @ [s]) of
           None \<Rightarrow> Inl ''ENOENT''
         | Some Dir \<Rightarrow> resolve fuel fs (cur @ [s]) ss
         | Some File \<Rightarrow> if ss = [] then Inr (cur @ [s]) else Inl ''ENOTDIR''
         | Some (Link t) \<Rightarrow>
             (case fuel of
                0 \<Rightarrow> Inl ''ELOOP''
              | Suc f \<Rightarrow> resolve f fs (if isAbsolute t then [] else cur) (segments t @ ss))))"

definition abs_segments :: "string \<Rightarrow> string \<Rightarrow> string list" where
  "abs_segments cwd p = (if isAbsolute p then segments p else segments cwd @ segments p)"

text \<open>\<open>path.resolve\<close> of one argument: absolute, normalised, no trailing separator.\<close>

definition path_resolve :: "string \<Rightarrow> string \<Rightarrow> string" where
  "path_resolve cwd p = CHR ''/'' # intercalate ''/'' (normalizeString False [] (abs_segments cwd p))"

definition render :: "string list \<Rightarrow> string" where
  "render names = (if names = [] then ''/'' else concat (map (\<lambda>s. CHR ''/'' # s) names))"

text \<open>\<open>fs.promises.realpath\<close>: the canonical path of an existing file.\<close>

definition realpath :: "entries \<Rightarrow> string \<Rightarrow> string \<Rightarrow> error + string" where
  "realpath fs cwd p =
     (case resolve 40 fs [] (abs_segments cwd p) of
        Inl code \<Rightarrow> Inl (SystemError code ''realpath'' p)
      | Inr names \<Rightarrow> Inr (render names))"

text \<open>
  The entry a path names, its last segment not followed (\<open>lstat\<close>, \<open>unlink\<close>, \<open>rm\<close>):
  the directory part is resolved and the last name is looked up in it.
\<close>

definition lookup_entry :: "entries \<Rightarrow> string \<Rightarrow> string \<Rightarrow> string + (string list \<times> node)" where
  "lookup_entry fs cwd p =
     (let names = filter (\<lambda>s. s \<noteq> []) (abs_segments cwd p)
      in if names = [] then Inr ([], Dir)
         else (case resolve 40 fs [] (butlast names) of
                 Inl code \<Rightarrow> Inl code
               | Inr dir \<Rightarrow>
                   (case map_of fs (dir @ [last names]) of
                      None \<Rightarrow> Inl ''ENOENT''
                    | Some n \<Rightarrow> Inr (dir @ [last names], n))))"

definition lstat :: "entries \<Rightarrow> string \<Rightarrow> string \<Rightarrow> error + node" where
  "lstat fs cwd p =
     (case lookup_entry fs cwd p of
        Inl code \<Rightarrow> Inl (SystemError code ''lstat'' p)
      | Inr (k, n) \<Rightarrow> Inr n)"

definition unlink :: "entries \<Rightarrow> string \<Rightarrow> string \<Rightarrow> error + entries" where
  "unlink fs cwd p =
     (case lookup_entry fs cwd p of
        Inl code \<Rightarrow> Inl (SystemError code ''unlink'' p)
      | Inr (k, n) \<Rightarrow>
          if n = Dir then Inl (SystemError ''EISDIR'' ''unlink'' p)
          else Inr (filter (\<lambda>(k', n'). k' \<noteq> k) fs))"

text \<open>
  \<open>fs.promises.rm(p, {recursive: true, force})\<close>: the entry and everything below it
  are removed. With \<open>force\<close>, a path that does not exist is not an error.
\<close>

definition rm :: "entries \<Rightarrow> string \<Rightarrow> string \<Rightarrow> bool \<Rightarrow> error + entries" where
  "rm fs cwd p force =
     (case lookup_entry fs cwd p of
        Inl code \<Rightarrow>
          if force \<and> code = ''ENOENT'' then Inr fs else Inl (SystemError code ''rm'' p)
      | Inr (k, n) \<Rightarrow> Inr (filter (\<lambda>(k', n'). \<not> prefix k k') fs))"

text \<open>\<open>fs.promises.readdir\<close>: the names in a directory, in the table's order.\<close>

definition readdir :: "entries \<Rightarrow> string \<Rightarrow> string \<Rightarrow> error + string list" where
  "readdir fs cwd p =
     (case resolve 40 fs [] (abs_segments cwd p) of
        Inl code \<Rightarrow> Inl (SystemError code ''scandir'' p)
      | Inr dir \<Rightarrow>
          if dir \<noteq> [] \<and> map_of fs dir \<noteq> Some Dir then Inl (SystemError ''ENOTDIR'' ''scandir'' p)
          else Inr (remdups (map (\<lambda>(k, n). last k)
                      (filter (\<lambda>(k, n). k \<noteq> [] \<and> butlast k = dir) fs))))"

section \<open>Configuration, clients and the process state\<close>

text \<open>
  The module \<open>./config\<close> is not among the sources: its exports are the fields of this
  record, together with the process environment and working directory.
\<close>

type_synonym session_id = string

record config =
  sessionFolderPath :: string
  baseWebhookURL :: string
  maxAttachmentSize :: int
  setMessagesAsSeen :: bool
  recoverSessions :: bool
  releaseBrowserLock :: bool
  disabledCallbacks :: "string list"
  process_env :: "(string \<times> string) list"
  process_cwd :: string

text \<open>
  What a handler registered with \<open>client.on\<close> does is fixed by the closure it was
  built from: \<open>Forward category dataType url id\<close> hands the event to both sinks under
  \<open>dataType\<close>; \<open>OnMessage\<close> and \<open>OnQr\<close> are the two handlers with a body of their own.
  The module binds \<open>maxAttachmentSize\<close> and \<open>setMessagesAsSeen\<close> once, when it is loaded
  (\<open>const { ... } = require('./config')\<close>): the message handler works with these two
  values for good, and they are its last two arguments.
\<close>

datatype listener =
    Forward string string string session_id
  | OnMessage string session_id int bool
  | OnQr string session_id

record client =
  cid :: nat
  listeners :: "listener list"
  qr :: "string option"
  qrClearTimeout :: bool
  pupPage_listeners :: bool

text \<open>The effects on the outside world, recorded in the order they are started.\<close>

datatype call =
    Logger string string
  | Construct session_id
  | Unlink string
  | Initialize session_id
  | InitWebSocketServer session_id
  | TerminateWebSocketServer session_id
  | Logout session_id
  | Destroy session_id
  | Rm string
  | TriggerWebhook string session_id string
  | TriggerWebSocket session_id string
  | DownloadMedia
  | Sleep nat
  | SendMessageSeenStatus
  | ClearTimeout
  | SetTimeout nat

record world =
  sessions :: "session_id \<rightharpoonup> client"
  files :: entries
  trace :: "call list"

definition do_call :: "call \<Rightarrow> world \<Rightarrow> world" where
  "do_call c w = w\<lparr>trace := trace w @ [c]\<rparr>"

definition calls_since :: "world \<Rightarrow> world \<Rightarrow> call list" where
  "calls_since w w' = drop (length (trace w)) (trace w')"

text \<open>
  The client library and the websocket module are external: what their calls answer
  is a parameter. One attempt of the liveness probe (\<open>pupPage.isClosed()\<close>, then
  \<open>pupPage.evaluate\<close> raced against a timer of 1000 ms) ends in one of four ways;
  \<open>Rejected\<close> is any exception of the attempt, also the \<open>TypeError\<close> of a client without
  \<open>pupPage\<close>.
\<close>

datatype probe = Closed | Evaluated | TimedOut | Rejected error

record ext =
  newClient :: "session_id \<Rightarrow> error + nat"
  initialize :: "session_id \<Rightarrow> error option"
  initWebSocketServer :: "session_id \<Rightarrow> error option"
  terminateWebSocketServer :: "session_id \<Rightarrow> error option"
  pupPage_probe :: "session_id \<Rightarrow> nat \<Rightarrow> probe"
  getState :: "session_id \<Rightarrow> error + string option"
  logout :: "session_id \<Rightarrow> error option"
  destroy :: "session_id \<Rightarrow> error option"
  isConnected :: "session_id \<Rightarrow> nat \<Rightarrow> error + bool"

section \<open>validateSession\<close>

record response =
  success :: bool
  message :: string

record validation = response +
  state :: "string option"

text \<open>
  The loop \<open>while (true)\<close> around the probe: a closed page returns, an attempt that
  does not throw (the evaluation resolved, or the timer did) breaks, an attempt that
  throws is counted and repeated unless the counter is at 2.
\<close>

datatype loop_exit = Break | BrowserTabClosed | SessionClosed

partial_function (option) pupPage_loop :: "(nat \<Rightarrow> probe) \<Rightarrow> nat \<Rightarrow> loop_exit option" where
  "pupPage_loop attempt maxRetry =
     (case attempt maxRetry of
        Closed \<Rightarrow> Some BrowserTabClosed
      | Evaluated \<Rightarrow> Some Break
      | TimedOut \<Rightarrow> Some Break
      | Rejected e \<Rightarrow>
          if maxRetry = 2 then Some SessionClosed else pupPage_loop attempt (maxRetry + 1))"

declare pupPage_loop.simps [code]

text \<open>
  \<open>None\<close> is a call that never returns. The wait for \<open>client.pupPage\<close> before the loop
  has its rejection swallowed and its value dropped, so it decides nothing.
\<close>

definition validateSession :: "ext \<Rightarrow> world \<Rightarrow> session_id \<Rightarrow> (validation \<times> world) option" where
  "validateSession E w sessionId =
     (case sessions w sessionId of
        None \<Rightarrow> Some (\<lparr>success = False, message = ''session_not_found'', state = None\<rparr>, w)
      | Some cl \<Rightarrow>
          (case pupPage_loop (pupPage_probe E sessionId) 0 of
             None \<Rightarrow> None
           | Some BrowserTabClosed \<Rightarrow>
               Some (\<lparr>success = False, message = ''browser tab closed'', state = None\<rparr>, w)
           | Some SessionClosed \<Rightarrow>
               Some (\<lparr>success = False, message = ''session closed'', state = None\<rparr>, w)
           | Some Break \<Rightarrow>
               (case getState E sessionId of
                  Inl error \<Rightarrow>
                    Some (\<lparr>success = False, message = error_message error, state = None\<rparr>,
                          do_call (Logger ''error'' ''Failed to validate session'') w)
                | Inr st \<Rightarrow>
                    if st \<noteq> Some ''CONNECTED'' then
                      Some (\<lparr>success = False, message = ''session_not_connected'', state = st\<rparr>, w)
                    else
                      Some (\<lparr>success = True, message = ''session_connected'', state = st\<rparr>, w))))"

section \<open>initializeEvents and the handlers it registers\<close>

definition isEventEnabled :: "config \<Rightarrow> string \<Rightarrow> bool" where
  "isEventEnabled cfg event = (event \<notin> set (disabledCallbacks cfg))"

definition toUpperCase :: "string \<Rightarrow> string" where
  "toUpperCase s =
     map (\<lambda>c. if 97 \<le> (of_char c :: nat) \<and> (of_char c :: nat) \<le> 122
               then char_of ((of_char c :: nat) - 32) else c) s"

text \<open>\<open>process.env[...] || baseWebhookURL\<close>: an unset or empty variable gives the default.\<close>

definition sessionWebhook :: "config \<Rightarrow> session_id \<Rightarrow> string" where
  "sessionWebhook cfg sessionId =
     (case map_of (process_env cfg) (toUpperCase sessionId @ ''_WEBHOOK_URL'') of
        None \<Rightarrow> baseWebhookURL cfg
      | Some url \<Rightarrow> if url = [] then baseWebhookURL cfg else url)"

text \<open>
  \<open>if (isEventEnabled(category)) client.on(category, ...)\<close>: the handler is registered
  or not when the client is set up. The pairs are the category and the \<open>dataType\<close>
  its handler passes to the sinks, in the order of the source.
\<close>

definition on_if_enabled :: "config \<Rightarrow> string \<Rightarrow> session_id \<Rightarrow> string \<times> string \<Rightarrow> listener list" where
  "on_if_enabled cfg url sessionId =
     (\<lambda>(category, dataType).
        if isEventEnabled cfg category then [Forward category dataType url sessionId] else [])"

definition categories_before_message :: "(string \<times> string) list" where
  "categories_before_message =
     [(''auth_failure'', ''status''), (''authenticated'', ''authenticated''), (''call'', ''call''),
      (''change_state'', ''change_state''), (''disconnected'', ''disconnected''),
      (''group_join'', ''group_join''), (''group_leave'', ''group_leave''),
      (''group_admin_changed'', ''group_admin_changed''),
      (''group_membership_request'', ''group_membership_request''),
      (''group_update'', ''group_update''), (''loading_screen'', ''loading_screen''),
      (''media_uploaded'', ''media_uploaded'')]"

definition categories_before_qr :: "(string \<times> string) list" where
  "categories_before_qr =
     [(''message_ack'', ''message_ack''), (''message_create'', ''message_create''),
      (''message_reaction'', ''message_reaction''), (''message_edit'', ''message_edit''),
      (''message_ciphertext'', ''message_ciphertext''),
      (''message_revoke_everyone'', ''message_revoke_everyone''),
      (''message_revoke_me'', ''message_revoke_me'')]"

definition categories_after_qr :: "(string \<times> string) list" where
  "categories_after_qr =
     [(''ready'', ''ready''), (''contact_changed'', ''contact_changed''),
      (''chat_removed'', ''chat_removed''), (''chat_archived'', ''chat_archived''),
      (''unread_count'', ''unread_count''), (''vote_update'', ''vote_update'')]"

text \<open>
  With \<open>recoverSessions\<close> the handlers of the page's \<open>close\<close> and \<open>error\<close> are attached
  (once \<open>client.pupPage\<close> exists); \<open>pupPage_listeners\<close> says that they are. What they
  do when the page closes is not part of this development.
\<close>

definition initializeEvents :: "config \<Rightarrow> client \<Rightarrow> session_id \<Rightarrow> client" where
  "initializeEvents cfg cl sessionId =
     (let url = sessionWebhook cfg sessionId;
          cl1 = (if recoverSessions cfg then cl\<lparr>pupPage_listeners := True\<rparr> else cl);
          cl2 = (if isEventEnabled cfg ''authenticated'' then cl1\<lparr>qr := None\<rparr> else cl1)
      in cl2\<lparr>listeners := listeners cl2
               @ concat (map (on_if_enabled cfg url sessionId) categories_before_message)
               @ [OnMessage url sessionId (maxAttachmentSize cfg) (setMessagesAsSeen cfg)]
               @ concat (map (on_if_enabled cfg url sessionId) categories_before_qr)
               @ [OnQr url sessionId]
               @ concat (map (on_if_enabled cfg url sessionId) categories_after_qr)\<rparr>)"

text \<open>
  An event the client library emits. A message carries what the handler reads:
  \<open>message.hasMedia\<close>, \<open>message._data?.size\<close> (\<open>None\<close> where it is undefined) and whether
  \<open>message.downloadMedia()\<close> rejects.
\<close>

record message_payload =
  hasMedia :: bool
  data_size :: "int option"
  downloadMedia :: "error option"

datatype event = MessageEvent message_payload | QrEvent string | Event string

fun event_category :: "event \<Rightarrow> string" where
  "event_category (MessageEvent m) = ''message''"
| "event_category (QrEvent q) = ''qr''"
| "event_category (Event category) = category"

text \<open>
  One handler on one event, under the configuration \<open>cfg\<close> as it is when the event
  fires. Of that configuration only \<open>disabledCallbacks\<close> is read: \<open>isEventEnabled\<close> looks
  into the array at every call, all other settings were bound earlier. The calls of a
  promise's callbacks are listed right after the call that started it.
\<close>

fun handle :: "config \<Rightarrow> listener \<Rightarrow> event \<Rightarrow> client \<Rightarrow> client \<times> call list" where
  "handle cfg (Forward category dataType url sessionId) (Event c) cl =
     (if c = category
      then (cl, [TriggerWebhook url sessionId dataType, TriggerWebSocket sessionId dataType])
      else (cl, []))"
| "handle cfg (OnMessage url sessionId maxSize markSeen) (MessageEvent m) cl =
     (cl,
      (if isEventEnabled cfg ''message'' then
         [TriggerWebhook url sessionId ''message'', TriggerWebSocket sessionId ''message'']
         @ (if hasMedia m \<and> (case data_size m of None \<Rightarrow> False | Some n \<Rightarrow> n < maxSize)
            then
              (if isEventEnabled cfg ''media'' then
                 DownloadMedia #
                 (case downloadMedia m of
                    None \<Rightarrow> [TriggerWebhook url sessionId ''media'', TriggerWebSocket sessionId ''media'']
                  | Some e \<Rightarrow> [Logger ''error'' ''Failed to download media''])
               else [])
            else [])
       else [])
      @ (if markSeen then [Sleep 1000, SendMessageSeenStatus] else []))"
| "handle cfg (OnQr url sessionId) (QrEvent q) cl =
     (cl\<lparr>qr := Some q, qrClearTimeout := True\<rparr>,
      (if qrClearTimeout cl then [ClearTimeout] else [])
      @ [SetTimeout 30000]
      @ (if isEventEnabled cfg ''qr''
         then [TriggerWebhook url sessionId ''qr'', TriggerWebSocket sessionId ''qr'']
         else []))"
| "handle cfg l ev cl = (cl, [])"

text \<open>The timer of the QR handler, when it fires.\<close>

definition qr_timeout :: "client \<Rightarrow> client \<times> call list" where
  "qr_timeout cl =
     (if qr cl \<noteq> None then (cl\<lparr>qr := None\<rparr>, [Logger ''warn'' ''Removing expired QR code''])
      else (cl, []))"

fun run_listeners :: "config \<Rightarrow> event \<Rightarrow> listener list \<Rightarrow> client \<Rightarrow> client \<times> call list" where
  "run_listeners cfg ev [] cl = (cl, [])"
| "run_listeners cfg ev (l # ls) cl =
     (case handle cfg l ev cl of
        (cl1, xs) \<Rightarrow> (case run_listeners cfg ev ls cl1 of (cl2, ys) \<Rightarrow> (cl2, xs @ ys)))"

definition emit :: "config \<Rightarrow> client \<Rightarrow> event \<Rightarrow> client \<times> call list" where
  "emit cfg cl ev = run_listeners cfg ev (listeners cl) cl"

text \<open>
  The life of a client after its setup: a sequence of events, each fired under the
  configuration of its moment. The result pairs every event with the calls it caused.
\<close>

fun lifetime :: "client \<Rightarrow> (config \<times> event) list \<Rightarrow> (event \<times> call list) list" where
  "lifetime cl [] = []"
| "lifetime cl ((cfg, ev) # rest) =
     (case emit cfg cl ev of (cl1, xs) \<Rightarrow> (ev, xs) # lifetime cl1 rest)"

fun is_sink_call :: "call \<Rightarrow> bool" where
  "is_sink_call (TriggerWebhook url sessionId dataType) = True"
| "is_sink_call (TriggerWebSocket sessionId dataType) = True"
| "is_sink_call c = False"

section \<open>setupSession\<close>

record setup_result = response +
  client :: "client option"

text \<open>
  The stale browser lock: \<open>lstat(...).then(() => true).catch(() => false)\<close>, and an
  \<open>unlink\<close> whose failure is not caught here.
\<close>

definition release_lock :: "config \<Rightarrow> world \<Rightarrow> session_id \<Rightarrow> (error + unit) \<times> world" where
  "release_lock cfg w sessionId =
     (if releaseBrowserLock cfg then
        let singletonLockPath =
              path_resolve (process_cwd cfg)
                (path_join [sessionFolderPath cfg, ''session-'' @ sessionId, ''SingletonLock''])
        in (case lstat (files w) (process_cwd cfg) singletonLockPath of
              Inl e \<Rightarrow> (Inr (), w)
            | Inr n \<Rightarrow>
                let w1 = do_call (Unlink singletonLockPath)
                           (do_call (Logger ''warn'' ''Browser lock file exists, removing'') w)
                in (case unlink (files w1) (process_cwd cfg) singletonLockPath of
                      Inl e \<Rightarrow> (Inl e, w1)
                    | Inr fs \<Rightarrow> (Inr (), w1\<lparr>files := fs\<rparr>)))
      else (Inr (), w))"

definition setup_failed :: "error \<Rightarrow> world \<Rightarrow> setup_result \<times> world" where
  "setup_failed e w = (\<lparr>success = False, message = error_message e, client = None\<rparr>, w)"

text \<open>
  \<open>newClient\<close> stands for building the options, \<open>new LocalAuth\<close> and \<open>new Client\<close>: it
  gives the identity of the new object or throws. Every exception of the body ends in
  the outer \<open>catch\<close>, which returns it as a failure.
\<close>

definition setupSession :: "ext \<Rightarrow> config \<Rightarrow> world \<Rightarrow> session_id \<Rightarrow> setup_result \<times> world" where
  "setupSession E cfg w sessionId =
     (case sessions w sessionId of
        Some cl \<Rightarrow>
          (\<lparr>success = False, message = ''Session already exists for: '' @ sessionId,
            client = Some cl\<rparr>, w)
      | None \<Rightarrow>
          let w1 = do_call (Construct sessionId)
                     (do_call (Logger ''info'' ''Session is being initiated'') w)
          in (case newClient E sessionId of
                Inl e \<Rightarrow> setup_failed e w1
              | Inr n \<Rightarrow>
                  (case release_lock cfg w1 sessionId of
                     (Inl e, w2) \<Rightarrow> setup_failed e w2
                   | (Inr u, w2) \<Rightarrow>
                       let w3 = do_call (Initialize sessionId) w2
                       in (case initialize E sessionId of
                             Some e \<Rightarrow> setup_failed e (do_call (Logger ''error'' ''Initialize error'') w3)
                           | None \<Rightarrow>
                               let w4 = do_call (InitWebSocketServer sessionId) w3
                               in (case initWebSocketServer E sessionId of
                                     Some e \<Rightarrow> setup_failed e w4
                                   | None \<Rightarrow>
                                       let cl = initializeEvents cfg
                                                  \<lparr>cid = n, listeners = [], qr = None,
                                                   qrClearTimeout = False,
                                                   pupPage_listeners = False\<rparr> sessionId
                                       in (\<lparr>success = True,
                                            message = ''Session initiated successfully'',
                                            client = Some cl\<rparr>,
                                           w4\<lparr>sessions := (sessions w4)(sessionId \<mapsto> cl)\<rparr>))))))"

section \<open>deleteSessionFolder\<close>

definition deleteSessionFolder :: "config \<Rightarrow> world \<Rightarrow> session_id \<Rightarrow> (error + unit) \<times> world" where
  "deleteSessionFolder cfg w sessionId =
     (let targetDirPath = path_join [sessionFolderPath cfg, ''session-'' @ sessionId];
          failed = (\<lambda>e w'. (Inl e, do_call (Logger ''error'' ''Folder deletion error'') w'))
      in (case realpath (files w) (process_cwd cfg) targetDirPath of
            Inl e \<Rightarrow> failed e w
          | Inr resolvedTargetDirPath \<Rightarrow>
              (case realpath (files w) (process_cwd cfg) (sessionFolderPath cfg) of
                 Inl e \<Rightarrow> failed e w
               | Inr resolvedSessionPath \<Rightarrow>
                   let safeSessionPath = resolvedSessionPath @ ''/''
                   in if \<not> prefix safeSessionPath resolvedTargetDirPath
                      then failed (Error ''Invalid path: Directory traversal detected'') w
                      else
                        let w1 = do_call (Rm resolvedTargetDirPath) w
                        in (case rm (files w1) (process_cwd cfg) resolvedTargetDirPath True of
                              Inl e \<Rightarrow> failed e w1
                            | Inr fs \<Rightarrow> (Inr (), w1\<lparr>files := fs\<rparr>)))))"

section \<open>deleteSession\<close>

text \<open>
  The wait for the browser to disconnect: \<open>isConnected()\<close> is asked first, then the
  counter is compared; each round sleeps one second.
\<close>

function wait_disconnected :: "(nat \<Rightarrow> error + bool) \<Rightarrow> nat \<Rightarrow> error option" where
  "wait_disconnected connected maxDelay =
     (case connected maxDelay of
        Inl e \<Rightarrow> Some e
      | Inr b \<Rightarrow> if b \<and> maxDelay < 10 then wait_disconnected connected (maxDelay + 1) else None)"
  by pat_completeness auto
termination
  by (relation "measure (\<lambda>(connected, maxDelay). 10 - maxDelay)") auto

text \<open>
  The branch on the validation: logout, destroy, or neither. The validation is the one
  the caller passes; a call without one throws at \<open>validation.success\<close> and is not
  modelled.
\<close>

definition logout_or_destroy :: "ext \<Rightarrow> world \<Rightarrow> session_id \<Rightarrow> validation \<Rightarrow> error option \<times> world" where
  "logout_or_destroy E w sessionId v =
     (if success v then
        (logout E sessionId,
         do_call (Logout sessionId) (do_call (Logger ''info'' ''Logging out session'') w))
      else if message v = ''session_not_connected'' then
        (destroy E sessionId,
         do_call (Destroy sessionId) (do_call (Logger ''info'' ''Destroying session'') w))
      else (None, w))"

text \<open>
  The statements of \<open>deleteSession\<close> before \<open>sessions.delete\<close>: the recovery listeners
  are removed from the page, the websocket server is stopped (its failure is caught and
  logged), the client is logged out or destroyed, and the disconnection is awaited. The
  result is the exception that left them, if any.
\<close>

definition disconnect_client :: "ext \<Rightarrow> world \<Rightarrow> session_id \<Rightarrow> client \<Rightarrow> validation \<Rightarrow> error option \<times> world" where
  "disconnect_client E w sessionId cl v =
     (let w1 = w\<lparr>sessions := (sessions w)(sessionId \<mapsto> cl\<lparr>pupPage_listeners := False\<rparr>)\<rparr>;
          w2 = do_call (TerminateWebSocketServer sessionId) w1;
          w3 = (case terminateWebSocketServer E sessionId of
                  Some e \<Rightarrow> do_call (Logger ''error'' ''Failed to terminate WebSocket server'') w2
                | None \<Rightarrow> w2)
      in (case logout_or_destroy E w3 sessionId v of
            (Some e, w4) \<Rightarrow> (Some e, w4)
          | (None, w4) \<Rightarrow> (wait_disconnected (isConnected E sessionId) 0, w4)))"

definition deleteSession :: "ext \<Rightarrow> config \<Rightarrow> world \<Rightarrow> session_id \<Rightarrow> validation \<Rightarrow> (error + unit) \<times> world" where
  "deleteSession E cfg w sessionId v =
     (case sessions w sessionId of
        None \<Rightarrow> (Inr (), w)
      | Some cl \<Rightarrow>
          let failed = (\<lambda>e w'. (Inl e, do_call (Logger ''error'' ''Failed to delete session'') w'))
          in (case disconnect_client E w sessionId cl v of
                (Some e, w4) \<Rightarrow> failed e w4
              | (None, w4) \<Rightarrow>
                  let w5 = w4\<lparr>sessions := (sessions w4)(sessionId := None)\<rparr>
                  in (case deleteSessionFolder cfg w5 sessionId of
                        (Inl e, w6) \<Rightarrow> failed e w6
                      | (Inr u, w6) \<Rightarrow> (Inr (), w6))))"

section \<open>flushSessions\<close>

text \<open>
  \<open>file.match(/^session-(.+)$/)\<close>: the prefix, then at least one character, none of
  them a line terminator (line feed or carriage return; the separators U+2028 and
  U+2029 are not single characters of a \<open>string\<close> and are left out).
\<close>

definition match_session :: "string \<Rightarrow> string option" where
  "match_session file =
     (if prefix ''session-'' file \<and> drop 8 file \<noteq> []
         \<and> list_all (\<lambda>c. c \<noteq> CHR 0x0A \<and> c \<noteq> CHR 0x0D) (drop 8 file)
      then Some (drop 8 file) else None)"

text \<open>The body of the loop for one directory entry, and the loop.\<close>

definition flush_item :: "ext \<Rightarrow> config \<Rightarrow> bool \<Rightarrow> world \<Rightarrow> string \<Rightarrow> ((error + unit) \<times> world) option" where
  "flush_item E cfg deleteOnlyInactive w file =
     (case match_session file of
        None \<Rightarrow> Some (Inr (), w)
      | Some sessionId \<Rightarrow>
          (case validateSession E w sessionId of
             None \<Rightarrow> None
           | Some (v, w1) \<Rightarrow>
               if \<not> deleteOnlyInactive \<or> \<not> success v
               then Some (deleteSession E cfg w1 sessionId v)
               else Some (Inr (), w1)))"

fun flush_loop :: "ext \<Rightarrow> config \<Rightarrow> bool \<Rightarrow> world \<Rightarrow> string list \<Rightarrow> ((error + unit) \<times> world) option" where
  "flush_loop E cfg deleteOnlyInactive w [] = Some (Inr (), w)"
| "flush_loop E cfg deleteOnlyInactive w (file # rest) =
     (case flush_item E cfg deleteOnlyInactive w file of
        None \<Rightarrow> None
      | Some (Inl e, w1) \<Rightarrow> Some (Inl e, w1)
      | Some (Inr u, w1) \<Rightarrow> flush_loop E cfg deleteOnlyInactive w1 rest)"

definition flushSessions :: "ext \<Rightarrow> config \<Rightarrow> world \<Rightarrow> bool \<Rightarrow> ((error + unit) \<times> world) option" where
  "flushSessions E cfg w deleteOnlyInactive =
     (let failed = (\<lambda>e w'. Some (Inl e, do_call (Logger ''error'' ''Failed to flush sessions'') w'))
      in (case readdir (files w) (process_cwd cfg) (sessionFolderPath cfg) of
            Inl e \<Rightarrow> failed e w
          | Inr names \<Rightarrow>
              (case flush_loop E cfg deleteOnlyInactive w names of
                 None \<Rightarrow> None
               | Some (Inl e, w1) \<Rightarrow> failed e w1
               | Some (Inr u, w1) \<Rightarrow> Some (Inr (), w1))))"

text \<open>
  What it is for the entries of a listing to be gone through one after the other with
  no exception, from the state \<open>w\<close> to the state \<open>w'\<close>: an entry that is not a session
  folder is passed over; a session folder has its session validated, and then either
  kept (only inactive ones are to go, and this one validated well) or deleted by a
  \<open>deleteSession\<close> that returns.
\<close>

inductive processed :: "ext \<Rightarrow> config \<Rightarrow> bool \<Rightarrow> world \<Rightarrow> string list \<Rightarrow> world \<Rightarrow> bool" where
  nothing: "processed E cfg deleteOnlyInactive w [] w"
| skipped:
    "match_session file = None \<Longrightarrow> processed E cfg deleteOnlyInactive w rest w'
     \<Longrightarrow> processed E cfg deleteOnlyInactive w (file # rest) w'"
| kept:
    "match_session file = Some sessionId \<Longrightarrow> validateSession E w sessionId = Some (v, w1)
     \<Longrightarrow> deleteOnlyInactive \<Longrightarrow> success v
     \<Longrightarrow> processed E cfg deleteOnlyInactive w1 rest w'
     \<Longrightarrow> processed E cfg deleteOnlyInactive w (file # rest) w'"
| deleted:
    "match_session file = Some sessionId \<Longrightarrow> validateSession E w sessionId = Some (v, w1)
     \<Longrightarrow> \<not> (deleteOnlyInactive \<and> success v)
     \<Longrightarrow> deleteSession E cfg w1 sessionId v = (Inr (), w2)
     \<Longrightarrow> processed E cfg deleteOnlyInactive w2 rest w'
     \<Longrightarrow> processed E cfg deleteOnlyInactive w (file # rest) w'"

section \<open>Nesting of paths\<close>

text \<open>
  The names of a path, and what it is for a target to lie strictly below a root: the
  names of the root are a proper prefix of the names of the target.
\<close>

definition path_names :: "string \<Rightarrow> string list" where
  "path_names p = filter (\<lambda>s. s \<noteq> []) (segments p)"

definition strictly_nested :: "string \<Rightarrow> string \<Rightarrow> bool" where
  "strictly_nested root target = strict_prefix (path_names root) (path_names target)"

definition good_names :: "string list \<Rightarrow> bool" where
  "good_names ns = list_all (\<lambda>s. s \<noteq> [] \<and> CHR ''/'' \<notin> set s) ns"

section \<open>A concrete installation\<close>

text \<open>
  A storage root \<open>/data/sessions\<close> with the folders of sessions \<open>a\<close> and \<open>b\<close>, a directory
  \<open>/data/secret\<close> beside it, and collaborators that all answer well.
\<close>

definition example_config :: config where
  "example_config =
     \<lparr>sessionFolderPath = ''/data/sessions'', baseWebhookURL = ''http://hook'',
      maxAttachmentSize = 1000, setMessagesAsSeen = True, recoverSessions = False,
      releaseBrowserLock = True, disabledCallbacks = [], process_env = [],
      process_cwd = ''/app''\<rparr>"

definition example_files :: entries where
  "example_files =
     [([''data''], Dir), ([''data'', ''sessions''], Dir),
      ([''data'', ''sessions'', ''session-a''], Dir),
      ([''data'', ''sessions'', ''session-a'', ''SingletonLock''], File),
      ([''data'', ''sessions'', ''session-b''], Dir),
      ([''data'', ''secret''], Dir)]"

definition example_ext :: ext where
  "example_ext =
     \<lparr>newClient = (\<lambda>s. Inr (length s)), initialize = (\<lambda>s. None),
      initWebSocketServer = (\<lambda>s. None), terminateWebSocketServer = (\<lambda>s. None),
      pupPage_probe = (\<lambda>s n. Evaluated), getState = (\<lambda>s. Inr (Some ''CONNECTED'')),
      logout = (\<lambda>s. None), destroy = (\<lambda>s. None), isConnected = (\<lambda>s n. Inr False)\<rparr>"

definition example_world :: world where
  "example_world = \<lparr>sessions = Map.empty, files = example_files, trace = []\<rparr>"

text \<open>
  Session \<open>a\<close> set up in that installation, and a browser whose probe never answers:
  every attempt ends by the timer.
\<close>

definition world_a :: world where
  "world_a = snd (setupSession example_ext example_config example_world ''a'')"


text \<open>A client whose \<open>initialize\<close> rejects.\<close>

definition failing_init_ext :: ext where
  "failing_init_ext =
     example_ext\<lparr>initialize := (\<lambda>s. Some (Error ''Failed to launch the browser process''))\<rparr>"

text \<open>
  Validation results as \<open>validateSession\<close> builds them, a browser whose page is closed, a
  client whose \<open>logout\<close> rejects for session \<open>a\<close>, and a session \<open>zz\<close> set up without a
  folder on disk.
\<close>

definition tab_closed_validation :: validation where
  "tab_closed_validation = \<lparr>success = False, message = ''browser tab closed'', state = None\<rparr>"

definition closed_tab_ext :: ext where
  "closed_tab_ext = example_ext\<lparr>pupPage_probe := (\<lambda>s n. Closed)\<rparr>"

definition connected_validation :: validation where
  "connected_validation = \<lparr>success = True, message = ''session_connected'', state = Some ''CONNECTED''\<rparr>"

definition failing_logout_ext :: ext where
  "failing_logout_ext =
     example_ext\<lparr>logout := (\<lambda>s. if s = ''a'' then Some (Error ''Protocol error'') else None)\<rparr>"

definition world_zz :: world where
  "world_zz = snd (setupSession example_ext example_config example_world ''zz'')"


text \<open>
  Sessions \<open>a\<close> and \<open>b\<close> both set up, with an empty trace, and three observations of a
  state: the id is registered, its folder exists, a teardown call was made for it.
\<close>

definition registered :: "session_id \<Rightarrow> world \<Rightarrow> bool" where
  "registered sessionId w = (sessions w sessionId \<noteq> None)"

definition has_folder :: "session_id \<Rightarrow> world \<Rightarrow> bool" where
  "has_folder sessionId w = (map_of (files w) [''data'', ''sessions'', ''session-'' @ sessionId] = Some Dir)"

definition called_for :: "session_id \<Rightarrow> world \<Rightarrow> bool" where
  "called_for sessionId w =
     (TerminateWebSocketServer sessionId \<in> set (trace w) \<or> Logout sessionId \<in> set (trace w)
      \<or> Destroy sessionId \<in> set (trace w))"

definition world_ab :: world where
  "world_ab = (snd (setupSession example_ext example_config world_a ''b''))\<lparr>trace := []\<rparr>"

text \<open>
  The same two sessions over a storage root that also holds a plain file and the folder
  of a session \<open>c\<close> that is not loaded, and a client whose \<open>logout\<close> rejects for \<open>b\<close>.
\<close>

definition flush_files :: entries where
  "flush_files =
     [([''data''], Dir), ([''data'', ''sessions''], Dir),
      ([''data'', ''sessions'', ''scratch''], File),
      ([''data'', ''sessions'', ''session-a''], Dir),
      ([''data'', ''sessions'', ''session-b''], Dir),
      ([''data'', ''sessions'', ''session-c''], Dir)]"

definition flush_world :: world where
  "flush_world = world_ab\<lparr>files := flush_files\<rparr>"

definition failing_logout_b_ext :: ext where
  "failing_logout_b_ext =
     example_ext\<lparr>logout := (\<lambda>s. if s = ''b'' then Some (Error ''Protocol error'') else None)\<rparr>"


text \<open>
  A client as \<open>setupSession\<close> hands it to \<open>initializeEvents\<close>, a configuration with the
  category \<open>message\<close> disabled, two configurations as they might be changed after the
  setup, and two inbound messages: plain text, and one with a small attachment.
\<close>

definition new_client :: client where
  "new_client = \<lparr>cid = 1, listeners = [], qr = None, qrClearTimeout = False, pupPage_listeners = False\<rparr>"

definition message_disabled_config :: config where
  "message_disabled_config = example_config\<lparr>disabledCallbacks := [''message'']\<rparr>"

definition changed_config :: config where
  "changed_config = example_config\<lparr>disabledCallbacks := [''message''], setMessagesAsSeen := False\<rparr>"

definition shrunk_config :: config where
  "shrunk_config = example_config\<lparr>maxAttachmentSize := 0\<rparr>"

definition text_message :: message_payload where
  "text_message = \<lparr>hasMedia = False, data_size = None, downloadMedia = None\<rparr>"

definition media_message :: message_payload where
  "media_message = \<lparr>hasMedia = True, data_size = Some 10, downloadMedia = None\<rparr>"


section \<open>Paths: what \<open>realpath\<close> returns\<close>

lemma segments_not_Nil: "segments p \<noteq> []"
  by (induction p) (auto split: list.splits)

lemma segments_append: "segments (a @ CHR ''/'' # b) = segments a @ segments b"
proof (induction a)
  case Nil
  then show ?case by simp
next
  case (Cons c a)
  then show ?case
    using segments_not_Nil [of a] by (cases "segments a") auto
qed

lemma segments_no_sep: "s \<in> set (segments p) \<Longrightarrow> CHR ''/'' \<notin> set s"
proof (induction p arbitrary: s)
  case Nil
  then show ?case by simp
next
  case (Cons c p)
  then show ?case
    using segments_not_Nil [of p] by (cases "segments p") (auto split: if_splits)
qed

lemma good_names_butlast: "good_names ns \<Longrightarrow> good_names (butlast ns)"
  by (auto simp: good_names_def list_all_iff dest: in_set_butlastD)

lemma resolve_good:
  "resolve fuel fs cur ss = Inr ns \<Longrightarrow> good_names cur \<Longrightarrow> list_all (\<lambda>s. CHR ''/'' \<notin> set s) ss
     \<Longrightarrow> good_names ns"
proof (induction fuel fs cur ss rule: resolve.induct)
  case (1 fuel fs cur)
  then show ?case by simp
next
  case (2 fuel fs cur s ss)
  note res = "2.prems"(1) and gcur = "2.prems"(2)
  from "2.prems"(3) have s_ok: "CHR ''/'' \<notin> set s" and ss_ok: "list_all (\<lambda>s. CHR ''/'' \<notin> set s) ss"
    by simp_all
  show ?case
  proof (cases "s = [] \<or> s = ''.''")
    case True
    with res have "resolve fuel fs cur ss = Inr ns" by simp
    with "2.IH"(1) [OF True] gcur ss_ok show ?thesis by blast
  next
    case False
    note nd = this
    show ?thesis
    proof (cases "s = ''..''")
      case True
      with res nd have "resolve fuel fs (butlast cur) ss = Inr ns" by simp
      with "2.IH"(2) [OF nd True] good_names_butlast [OF gcur] ss_ok show ?thesis by blast
    next
      case False
      note ndd = this
      have gs: "good_names (cur @ [s])"
        using gcur s_ok nd by (simp add: good_names_def)
      show ?thesis
      proof (cases "map_of fs (cur @ [s])")
        case None
        with res nd ndd show ?thesis by simp
      next
        case (Some n)
        show ?thesis
        proof (cases n)
          case Dir
          with res nd ndd Some have "resolve fuel fs (cur @ [s]) ss = Inr ns" by simp
          with "2.IH"(3) [OF nd ndd Some Dir] gs ss_ok show ?thesis by blast
        next
          case File
          with res nd ndd Some have "ns = cur @ [s]" by (simp split: if_splits)
          with gs show ?thesis by simp
        next
          case (Link t)
          show ?thesis
          proof (cases fuel)
            case 0
            with res nd ndd Some Link show ?thesis by simp
          next
            case (Suc f)
            have seg: "list_all (\<lambda>s. CHR ''/'' \<notin> set s) (segments t @ ss)"
              using ss_ok by (auto simp: list_all_iff dest: segments_no_sep)
            have cur': "good_names (if isAbsolute t then [] else cur)"
              using gcur by (simp add: good_names_def)
            from res nd ndd Some Link Suc
            have "resolve f fs (if isAbsolute t then [] else cur) (segments t @ ss) = Inr ns"
              by simp
            with "2.IH"(4) [OF nd ndd Some Link Suc] cur' seg show ?thesis by blast
          qed
        qed
      qed
    qed
  qed
qed

lemma render_not_Nil: "render ns \<noteq> []"
  by (cases ns) (auto simp: render_def)

lemma concat_sep_last:
  "s \<noteq> [] \<Longrightarrow> last (concat (map (\<lambda>s. CHR ''/'' # s) (xs @ [s]))) = last s"
  by simp

lemma render_last:
  assumes g: "good_names ns" and ne: "ns \<noteq> []"
  shows "last (render ns) \<noteq> CHR ''/''"
proof -
  from g ne have l: "last ns \<noteq> []" "CHR ''/'' \<notin> set (last ns)"
    by (auto simp: good_names_def list_all_iff)
  have "last (concat (map (\<lambda>s. CHR ''/'' # s) (butlast ns @ [last ns]))) = last (last ns)"
    using l(1) by (rule concat_sep_last)
  then have "last (render ns) = last (last ns)"
    using ne by (simp add: render_def)
  moreover have "last (last ns) \<in> set (last ns)"
    using l(1) by simp
  ultimately show ?thesis
    using l(2) by metis
qed

lemma realpath_canonical:
  assumes "realpath fs cwd p = Inr t"
  shows "t \<noteq> [] \<and> (t = ''/'' \<or> last t \<noteq> CHR ''/'')"
proof -
  from assms obtain ns where r: "resolve 40 fs [] (abs_segments cwd p) = Inr ns" and t: "t = render ns"
    by (auto simp: realpath_def split: sum.splits)
  have "list_all (\<lambda>s. CHR ''/'' \<notin> set s) (abs_segments cwd p)"
    by (auto simp: abs_segments_def list_all_iff dest: segments_no_sep)
  moreover have "good_names []"
    by (simp add: good_names_def)
  ultimately have g: "good_names ns"
    using r resolve_good by blast
  show ?thesis
  proof (cases "ns = []")
    case True
    with t show ?thesis by (simp add: render_def)
  next
    case False
    with g t show ?thesis using render_last render_not_Nil by auto
  qed
qed

lemma path_names_append: "path_names (a @ CHR ''/'' # b) = path_names a @ path_names b"
  by (simp add: path_names_def segments_append)

lemma path_names_Nil_iff: "path_names b = [] \<longleftrightarrow> list_all (\<lambda>c. c = CHR ''/'') b"
proof (induction b)
  case Nil
  then show ?case by (simp add: path_names_def)
next
  case (Cons c b)
  then show ?case
    using segments_not_Nil [of b]
    by (cases "segments b") (auto simp: path_names_def)
qed

lemma prefix_check_nested:
  assumes p: "prefix (r @ ''/'') t" and c: "t = ''/'' \<or> last t \<noteq> CHR ''/''" and r: "r \<noteq> []"
  shows "strictly_nested r t"
proof -
  from p obtain b where t: "t = r @ CHR ''/'' # b"
    unfolding prefix_def by auto
  have "length t \<ge> 2"
    using r unfolding t by (cases r) simp_all
  then have "t \<noteq> ''/''" by auto
  with c have lt: "last t \<noteq> CHR ''/''" by simp
  have bne: "b \<noteq> []"
  proof
    assume "b = []"
    then have "last t = CHR ''/''" unfolding t by simp
    with lt show False by simp
  qed
  then have "last t = last b" unfolding t by simp
  with lt have "last b \<noteq> CHR ''/''" by simp
  moreover have "last b \<in> set b" using bne by simp
  ultimately have "\<not> list_all (\<lambda>c. c = CHR ''/'') b"
    unfolding list_all_iff by blast
  then have "path_names b \<noteq> []"
    by (simp add: path_names_Nil_iff)
  then have "strict_prefix (path_names r) (path_names r @ path_names b)"
    by (simp add: strict_prefix_def)
  then show ?thesis
    unfolding strictly_nested_def t path_names_append .
qed


section \<open>deleteSessionFolder: the traversal guard and the absent folder\<close>

lemma do_call_fields [simp]:
  "sessions (do_call c w) = sessions w" "files (do_call c w) = files w"
  "trace (do_call c w) = trace w @ [c]"
  by (simp_all add: do_call_def)

lemma calls_since_append [simp]: "trace w' = trace w @ xs \<Longrightarrow> calls_since w w' = xs"
  by (simp add: calls_since_def)

text \<open>
  C3. When the target and the storage root both resolve and the resolved target is not
  strictly nested under the resolved root, \<open>deleteSessionFolder\<close> throws the traversal
  error; the file system and the registry are as before, and \<open>rm\<close> was not called (the
  only call is the logger's).
\<close>

theorem deleteSessionFolder_traversal_detected:
  assumes target: "realpath (files w) (process_cwd cfg)
                     (path_join [sessionFolderPath cfg, ''session-'' @ sessionId]) = Inr target"
    and root: "realpath (files w) (process_cwd cfg) (sessionFolderPath cfg) = Inr root"
    and outside: "\<not> strictly_nested root target"
  shows "fst (deleteSessionFolder cfg w sessionId)
           = Inl (Error ''Invalid path: Directory traversal detected'')
         \<and> files (snd (deleteSessionFolder cfg w sessionId)) = files w
         \<and> sessions (snd (deleteSessionFolder cfg w sessionId)) = sessions w
         \<and> calls_since w (snd (deleteSessionFolder cfg w sessionId))
             = [Logger ''error'' ''Folder deletion error'']"
proof -
  from root have "root \<noteq> []"
    using realpath_canonical by blast
  moreover from target have "target = ''/'' \<or> last target \<noteq> CHR ''/''"
    using realpath_canonical by blast
  ultimately have "\<not> prefix (root @ ''/'') target"
    using outside prefix_check_nested by blast
  then show ?thesis
    using target root by (simp add: deleteSessionFolder_def Let_def)
qed

theorem deleteSessionFolder_traversal_detected_witness:
  "fst (deleteSessionFolder example_config example_world ''x/../../secret'')
     = Inl (Error ''Invalid path: Directory traversal detected'')
   \<and> files (snd (deleteSessionFolder example_config example_world ''x/../../secret''))
     = example_files"
proof -
  have t: "realpath (files example_world) (process_cwd example_config)
             (path_join [sessionFolderPath example_config, ''session-'' @ ''x/../../secret''])
           = Inr ''/data/secret''"
    by code_simp
  have r: "realpath (files example_world) (process_cwd example_config)
             (sessionFolderPath example_config) = Inr ''/data/sessions''"
    by code_simp
  have n: "\<not> strictly_nested ''/data/sessions'' ''/data/secret''"
    by (simp add: strictly_nested_def path_names_def)
  show ?thesis
    using deleteSessionFolder_traversal_detected [OF t r n] by (simp add: example_world_def)
qed

text \<open>
  C5. The folder of session \<open>zz\<close> does not exist. \<open>rm\<close> with \<open>force\<close> accepts the absent
  path, but \<open>deleteSessionFolder\<close> calls \<open>realpath\<close> on it first and throws its \<open>ENOENT\<close>.
\<close>

theorem deleteSessionFolder_absent_folder_throws:
  "fst (deleteSessionFolder example_config example_world ''zz'')
     = Inl (SystemError ''ENOENT'' ''realpath'' ''/data/sessions/session-zz'')
   \<and> rm example_files ''/app'' ''/data/sessions/session-zz'' True = Inr example_files"
  by code_simp

section \<open>validateSession\<close>

lemma pupPage_loop_0:
  "pupPage_loop a 0 =
     Some (case a 0 of Closed \<Rightarrow> BrowserTabClosed | Evaluated \<Rightarrow> Break | TimedOut \<Rightarrow> Break
           | Rejected e \<Rightarrow>
               (case a 1 of Closed \<Rightarrow> BrowserTabClosed | Evaluated \<Rightarrow> Break | TimedOut \<Rightarrow> Break
                | Rejected e \<Rightarrow>
                    (case a 2 of Closed \<Rightarrow> BrowserTabClosed | Evaluated \<Rightarrow> Break
                     | TimedOut \<Rightarrow> Break | Rejected e \<Rightarrow> SessionClosed)))"
  apply (subst pupPage_loop.simps [of a 0])
  apply (subst pupPage_loop.simps [of a "0 + 1"])
  apply (subst pupPage_loop.simps [of a "0 + 1 + 1"])
  apply (simp add: numeral_2_eq_2 split: probe.split)
  done






lemma validateSession_returns: "\<exists>v w'. validateSession E w sessionId = Some (v, w')"
  by (simp add: validateSession_def pupPage_loop_0 split: option.split probe.split sum.split)





section \<open>setupSession\<close>

lemma release_lock_effect:
  assumes "release_lock cfg w sessionId = (rl, w2)"
  shows "sessions w2 = sessions w
         \<and> (\<exists>xs. trace w2 = trace w @ xs \<and> (\<forall>s. Initialize s \<notin> set xs))
         \<and> (\<forall>e. rl = Inl e \<longrightarrow> files w2 = files w)"
  using assms
  by (auto simp: release_lock_def Let_def split: if_splits sum.splits)

lemma release_lock_frame:
  "files w1 = files w2 \<Longrightarrow> fst (release_lock cfg w1 sessionId) = fst (release_lock cfg w2 sessionId)"
  by (auto simp: release_lock_def Let_def split: if_splits sum.splits)

text \<open>
  C1. \<open>setupSession\<close> changes the registry only when \<open>initialize\<close> was called and
  resolved. When \<open>initialize\<close> was called and threw, the result is a failure carrying the
  error's message and no client, and the registry is as before, with no entry for the id.
\<close>

theorem setupSession_registers_after_initialize:
  assumes run: "setupSession E cfg w sessionId = (r, w')"
  shows "(sessions w' \<noteq> sessions w \<longrightarrow>
            initialize E sessionId = None \<and> Initialize sessionId \<in> set (calls_since w w')
            \<and> success r)
         \<and> (Initialize sessionId \<in> set (calls_since w w') \<and> initialize E sessionId \<noteq> None \<longrightarrow>
              \<not> success r \<and> client r = None \<and> sessions w' sessionId = None
              \<and> sessions w' = sessions w
              \<and> (\<exists>e. initialize E sessionId = Some e \<and> message r = error_message e))"
proof (cases "sessions w sessionId")
  case (Some cl)
  with run show ?thesis
    by (auto simp: setupSession_def calls_since_def)
next
  case None
  define w1 where
    "w1 = do_call (Construct sessionId) (do_call (Logger ''info'' ''Session is being initiated'') w)"
  obtain rl w2 where rl: "release_lock cfg w1 sessionId = (rl, w2)"
    by (cases "release_lock cfg w1 sessionId")
  from release_lock_effect [OF rl] obtain xs where
    s2: "sessions w2 = sessions w" and
    t2: "trace w2 = trace w @ [Logger ''info'' ''Session is being initiated'', Construct sessionId] @ xs" and
    ni: "\<And>s. Initialize s \<notin> set xs"
    by (auto simp: w1_def)
  show ?thesis
  proof (cases "newClient E sessionId")
    case (Inl e)
    with run None show ?thesis
      by (auto simp: setupSession_def setup_failed_def Let_def)
  next
    case (Inr n)
    show ?thesis
    proof (cases rl)
      case (Inl e)
      with run None Inr rl s2 t2 ni show ?thesis
        by (auto simp: setupSession_def setup_failed_def Let_def w1_def [symmetric])
    next
      case rok: (Inr u)
      show ?thesis
      proof (cases "initialize E sessionId")
        case (Some e)
        with run None Inr rl rok s2 t2 ni show ?thesis
          by (auto simp: setupSession_def setup_failed_def Let_def w1_def [symmetric])
      next
        case ini: None
        show ?thesis
        proof (cases "initWebSocketServer E sessionId")
          case (Some e)
          with run None Inr rl rok ini s2 t2 ni show ?thesis
            by (auto simp: setupSession_def setup_failed_def Let_def w1_def [symmetric])
        next
          case ws: None
          with run \<open>sessions w sessionId = None\<close> Inr rl rok ini s2 t2 ni show ?thesis
            by (auto simp: setupSession_def setup_failed_def Let_def w1_def [symmetric])
        qed
      qed
    qed
  qed
qed


theorem setupSession_registers_after_initialize_witness:
  "\<not> success (fst (setupSession failing_init_ext example_config example_world ''a''))
   \<and> sessions (snd (setupSession failing_init_ext example_config example_world ''a'')) ''a'' = None
   \<and> message (fst (setupSession failing_init_ext example_config example_world ''a''))
       = ''Failed to launch the browser process''"
proof -
  obtain r w' where run: "setupSession failing_init_ext example_config example_world ''a'' = (r, w')"
    by (cases "setupSession failing_init_ext example_config example_world ''a''")
  have called: "Initialize ''a'' \<in> set (calls_since example_world
                  (snd (setupSession failing_init_ext example_config example_world ''a'')))"
    by code_simp
  have threw: "initialize failing_init_ext ''a'' = Some (Error ''Failed to launch the browser process'')"
    by (simp add: failing_init_ext_def)
  show ?thesis
    using setupSession_registers_after_initialize [OF run] called threw run by auto
qed

lemma already_exists_message: "sublist ''already exists'' (''Session already exists for: '' @ sessionId)"
proof -
  have "''Session already exists for: '' @ sessionId
          = ''Session '' @ ''already exists'' @ ('' for: '' @ sessionId)"
    by simp
  then show ?thesis
    unfolding sublist_def by blast
qed

text \<open>
  C8. Scenario A. The id is not registered and the collaborators answer well (the
  client is constructed, the stale lock is removed or absent, \<open>initialize\<close> and the
  websocket server resolve). Then setup succeeds and registers the client it returns. A
  second setup fails with a message containing \<open>already exists\<close>, returns the registered
  client, and leaves the whole state as it was: same registry, same files, no further
  call, so no second \<open>initialize\<close>.
\<close>

theorem setupSession_scenario_A:
  assumes absent: "sessions w sessionId = None"
    and construct: "newClient E sessionId = Inr n"
    and lock: "fst (release_lock cfg w sessionId) = Inr ()"
    and init: "initialize E sessionId = None"
    and ws: "initWebSocketServer E sessionId = None"
  shows "(case setupSession E cfg w sessionId of
            (r1, w1) \<Rightarrow>
              success r1 \<and> sessions w1 sessionId \<noteq> None \<and> client r1 = sessions w1 sessionId
              \<and> (case setupSession E cfg w1 sessionId of
                    (r2, w2) \<Rightarrow>
                      \<not> success r2 \<and> sublist ''already exists'' (message r2)
                      \<and> client r2 = sessions w1 sessionId \<and> w2 = w1))"
proof -
  define w0 where
    "w0 = do_call (Construct sessionId) (do_call (Logger ''info'' ''Session is being initiated'') w)"
  have "files w0 = files w" by (simp add: w0_def)
  then have "fst (release_lock cfg w0 sessionId) = Inr ()"
    using lock release_lock_frame by metis
  then obtain w2 where rl: "release_lock cfg w0 sessionId = (Inr (), w2)"
    by (cases "release_lock cfg w0 sessionId") auto
  from release_lock_effect [OF rl] have s2: "sessions w2 = sessions w"
    by (simp add: w0_def)
  obtain r1 w1 where run1: "setupSession E cfg w sessionId = (r1, w1)"
    by (cases "setupSession E cfg w sessionId")
  with absent construct rl init ws s2
  have first: "success r1 \<and> sessions w1 sessionId \<noteq> None \<and> client r1 = sessions w1 sessionId"
    by (auto simp: setupSession_def Let_def w0_def [symmetric])
  then obtain cl where cl: "sessions w1 sessionId = Some cl" by auto
  then have "setupSession E cfg w1 sessionId
               = (\<lparr>success = False, message = ''Session already exists for: '' @ sessionId,
                   client = Some cl\<rparr>, w1)"
    by (simp add: setupSession_def)
  with first cl run1 show ?thesis
    using already_exists_message [of sessionId] by simp
qed

theorem setupSession_scenario_A_witness:
  "success (fst (setupSession example_ext example_config example_world ''s1''))
   \<and> sessions (snd (setupSession example_ext example_config example_world ''s1'')) ''s1'' \<noteq> None
   \<and> \<not> success (fst (setupSession example_ext example_config
                      (snd (setupSession example_ext example_config example_world ''s1'')) ''s1''))"
proof -
  have absent: "sessions example_world ''s1'' = None"
    by (simp add: example_world_def)
  have construct: "newClient example_ext ''s1'' = Inr 2"
    by (simp add: example_ext_def)
  have lock: "fst (release_lock example_config example_world ''s1'') = Inr ()"
    by code_simp
  have init: "initialize example_ext ''s1'' = None"
    by (simp add: example_ext_def)
  have ws: "initWebSocketServer example_ext ''s1'' = None"
    by (simp add: example_ext_def)
  show ?thesis
    using setupSession_scenario_A [OF absent construct lock init ws]
    by (auto split: prod.splits)
qed


section \<open>deleteSession\<close>

lemma deleteSessionFolder_effect:
  assumes "deleteSessionFolder cfg w sessionId = (r, w')"
  shows "sessions w' = sessions w
         \<and> (\<exists>xs. trace w' = trace w @ xs \<and> (\<forall>s. Logout s \<notin> set xs \<and> Destroy s \<notin> set xs))
         \<and> (\<forall>e. r = Inl e \<longrightarrow> files w' = files w)"
  using assms
  by (auto simp: deleteSessionFolder_def Let_def split: if_splits sum.splits)

lemma deleteSessionFolder_frame:
  "files w1 = files w2 \<Longrightarrow>
     fst (deleteSessionFolder cfg w1 sessionId) = fst (deleteSessionFolder cfg w2 sessionId)
     \<and> files (snd (deleteSessionFolder cfg w1 sessionId)) = files (snd (deleteSessionFolder cfg w2 sessionId))"
  by (auto simp: deleteSessionFolder_def Let_def split: if_splits sum.splits)

lemma logout_or_destroy_result:
  "fst (logout_or_destroy E w sessionId v) =
     (if success v then logout E sessionId
      else if message v = ''session_not_connected'' then destroy E sessionId else None)"
  by (simp add: logout_or_destroy_def)

lemma logout_or_destroy_effect:
  assumes "logout_or_destroy E w sessionId v = (r, w')"
  shows "sessions w' = sessions w \<and> files w' = files w
         \<and> (\<exists>xs. trace w' = trace w @ xs
               \<and> (Logout sessionId \<in> set xs \<longleftrightarrow> success v)
               \<and> (Destroy sessionId \<in> set xs \<longleftrightarrow> \<not> success v \<and> message v = ''session_not_connected''))"
  using assms
  by (auto simp: logout_or_destroy_def split: if_splits)




lemma disconnect_client_effect:
  assumes "disconnect_client E w sessionId cl v = (r, w4)"
  shows "sessions w4 = (sessions w)(sessionId \<mapsto> cl\<lparr>pupPage_listeners := False\<rparr>)
         \<and> files w4 = files w
         \<and> (\<exists>xs. trace w4 = trace w @ xs
               \<and> (Logout sessionId \<in> set xs \<longleftrightarrow> success v)
               \<and> (Destroy sessionId \<in> set xs \<longleftrightarrow> \<not> success v \<and> message v = ''session_not_connected''))
         \<and> r = (case fst (logout_or_destroy E w sessionId v) of
                  Some e \<Rightarrow> Some e
                | None \<Rightarrow> wait_disconnected (isConnected E sessionId) 0)"
proof -
  define w3 where
    "w3 = (case terminateWebSocketServer E sessionId of
             Some e \<Rightarrow> do_call (Logger ''error'' ''Failed to terminate WebSocket server'')
                        (do_call (TerminateWebSocketServer sessionId)
                           (w\<lparr>sessions := (sessions w)(sessionId \<mapsto> cl\<lparr>pupPage_listeners := False\<rparr>)\<rparr>))
           | None \<Rightarrow> do_call (TerminateWebSocketServer sessionId)
                        (w\<lparr>sessions := (sessions w)(sessionId \<mapsto> cl\<lparr>pupPage_listeners := False\<rparr>)\<rparr>))"
  have w3: "sessions w3 = (sessions w)(sessionId \<mapsto> cl\<lparr>pupPage_listeners := False\<rparr>)"
    "files w3 = files w"
    "\<exists>ys. trace w3 = trace w @ ys \<and> Logout sessionId \<notin> set ys \<and> Destroy sessionId \<notin> set ys"
    by (simp_all add: w3_def split: option.split)
  obtain t w4' where lod: "logout_or_destroy E w3 sessionId v = (t, w4')"
    by (cases "logout_or_destroy E w3 sessionId v")
  have t: "t = fst (logout_or_destroy E w sessionId v)"
    using lod by (simp add: logout_or_destroy_result [of E w] logout_or_destroy_result [of E w3, symmetric])
  from assms lod have res: "w4 = w4'"
    "r = (case t of Some e \<Rightarrow> Some e | None \<Rightarrow> wait_disconnected (isConnected E sessionId) 0)"
    by (auto simp: disconnect_client_def Let_def w3_def split: option.splits)
  from logout_or_destroy_effect [OF lod] w3 res t show ?thesis
    by auto
qed

text \<open>
  C2. For a registered id, \<open>deleteSession\<close> calls \<open>logout\<close> exactly when
  \<open>validation.success\<close> is true, and \<open>destroy\<close> exactly when \<open>success\<close> is false and the
  validation's message is \<open>session_not_connected\<close>. With any other failure message
  neither is called.
\<close>

theorem deleteSession_logout_or_destroy:
  assumes reg: "sessions w sessionId = Some cl"
    and run: "deleteSession E cfg w sessionId v = (r, w')"
  shows "(Logout sessionId \<in> set (calls_since w w') \<longleftrightarrow> success v)
         \<and> (Destroy sessionId \<in> set (calls_since w w')
              \<longleftrightarrow> \<not> success v \<and> message v = ''session_not_connected'')"
proof -
  obtain t w4 where dc: "disconnect_client E w sessionId cl v = (t, w4)"
    by (cases "disconnect_client E w sessionId cl v")
  from disconnect_client_effect [OF dc] obtain xs where
    xs: "trace w4 = trace w @ xs" "Logout sessionId \<in> set xs \<longleftrightarrow> success v"
        "Destroy sessionId \<in> set xs \<longleftrightarrow> \<not> success v \<and> message v = ''session_not_connected''"
    by blast
  show ?thesis
  proof (cases t)
    case (Some e)
    with reg run dc xs show ?thesis
      by (auto simp: deleteSession_def Let_def calls_since_def)
  next
    case None
    obtain r6 w6 where dsf:
      "deleteSessionFolder cfg (w4\<lparr>sessions := (sessions w4)(sessionId := None)\<rparr>) sessionId = (r6, w6)"
      by (cases "deleteSessionFolder cfg (w4\<lparr>sessions := (sessions w4)(sessionId := None)\<rparr>) sessionId")
    from deleteSessionFolder_effect [OF dsf] obtain ys where
      ys: "trace w6 = trace w4 @ ys" "\<And>s. Logout s \<notin> set ys" "\<And>s. Destroy s \<notin> set ys"
      by auto
    from reg run dc None dsf have "trace w' = trace w6 \<or> trace w' = trace w6 @ [Logger ''error'' ''Failed to delete session'']"
      by (cases r6) (auto simp: deleteSession_def Let_def)
    with xs ys show ?thesis
      by (auto simp: calls_since_def)
  qed
qed


lemma world_a_registered: "sessions world_a ''a'' \<noteq> None"
  by code_simp

lemma world_zz_registered: "sessions world_zz ''zz'' \<noteq> None"
  by code_simp

theorem deleteSession_logout_or_destroy_witness:
  "Logout ''a'' \<in> set (calls_since world_a
       (snd (deleteSession example_ext example_config world_a ''a'' connected_validation)))
   \<and> Destroy ''a'' \<notin> set (calls_since world_a
       (snd (deleteSession example_ext example_config world_a ''a'' connected_validation)))"
proof -
  obtain cl where reg: "sessions world_a ''a'' = Some cl"
    using world_a_registered by blast
  obtain r w' where run:
    "deleteSession example_ext example_config world_a ''a'' connected_validation = (r, w')"
    by (cases "deleteSession example_ext example_config world_a ''a'' connected_validation")
  have "success connected_validation"
    by (simp add: connected_validation_def)
  with deleteSession_logout_or_destroy [OF reg run] run show ?thesis
    by simp
qed

text \<open>
  C2 as stated fails: session \<open>a\<close> is registered and its validation is the failure
  \<open>browser tab closed\<close>; \<open>deleteSession\<close> does not call \<open>destroy\<close>.
\<close>

theorem deleteSession_tab_closed_no_destroy:
  "sessions world_a ''a'' \<noteq> None
   \<and> map_option fst (validateSession closed_tab_ext world_a ''a'') = Some tab_closed_validation
   \<and> \<not> success tab_closed_validation
   \<and> Destroy ''a'' \<notin> set (calls_since world_a
        (snd (deleteSession example_ext example_config world_a ''a'' tab_closed_validation)))"
  by code_simp


text \<open>
  C10. For a registered id: an error of \<open>logout\<close> or of \<open>destroy\<close> is the error of
  \<open>deleteSession\<close>, with the registry entry still there and the files untouched. When
  the statements before \<open>sessions.delete\<close> end without an exception, the id is gone from
  the registry whatever the folder removal does, the result of \<open>deleteSession\<close> is the
  result of \<open>deleteSessionFolder\<close>, and when that is an error the files are as before:
  the registry is not restored and the folder persists.
\<close>

theorem deleteSession_registry_before_folder:
  assumes reg: "sessions w sessionId = Some cl"
    and run: "deleteSession E cfg w sessionId v = (r, w')"
  shows "(\<forall>e. success v \<and> logout E sessionId = Some e \<longrightarrow>
            r = Inl e \<and> sessions w' sessionId \<noteq> None \<and> files w' = files w)
         \<and> (\<forall>e. \<not> success v \<and> message v = ''session_not_connected'' \<and> destroy E sessionId = Some e \<longrightarrow>
              r = Inl e \<and> sessions w' sessionId \<noteq> None \<and> files w' = files w)
         \<and> (fst (disconnect_client E w sessionId cl v) = None \<longrightarrow>
              sessions w' = (sessions w)(sessionId := None)
              \<and> r = fst (deleteSessionFolder cfg w sessionId)
              \<and> (\<forall>e. r = Inl e \<longrightarrow> files w' = files w))"
proof -
  obtain t w4 where dc: "disconnect_client E w sessionId cl v = (t, w4)"
    by (cases "disconnect_client E w sessionId cl v")
  from disconnect_client_effect [OF dc] have
    s4: "sessions w4 = (sessions w)(sessionId \<mapsto> cl\<lparr>pupPage_listeners := False\<rparr>)" and
    f4: "files w4 = files w" and
    t: "t = (case fst (logout_or_destroy E w sessionId v) of
               Some e \<Rightarrow> Some e | None \<Rightarrow> wait_disconnected (isConnected E sessionId) 0)"
    by blast+
  show ?thesis
  proof (cases t)
    case (Some e)
    with reg run dc have "r = Inl e" "sessions w' = sessions w4" "files w' = files w4"
      by (auto simp: deleteSession_def Let_def)
    with s4 f4 Some t dc show ?thesis
      by (auto simp: logout_or_destroy_result split: option.splits if_splits)
  next
    case None
    define w5 where "w5 = w4\<lparr>sessions := (sessions w4)(sessionId := None)\<rparr>"
    obtain r6 w6 where dsf: "deleteSessionFolder cfg w5 sessionId = (r6, w6)"
      by (cases "deleteSessionFolder cfg w5 sessionId")
    have f5: "files w5 = files w"
      by (simp add: w5_def f4)
    have r6: "r6 = fst (deleteSessionFolder cfg w sessionId)"
      using deleteSessionFolder_frame [OF f5, of cfg sessionId] dsf by simp
    from deleteSessionFolder_effect [OF dsf] have
      s6: "sessions w6 = (sessions w)(sessionId := None)" and
      e6: "\<And>e. r6 = Inl e \<Longrightarrow> files w6 = files w"
      by (auto simp: w5_def s4 f4)
    from reg run dc None dsf have
      "r = r6" "sessions w' = sessions w6" "files w' = files w6"
      by (cases r6; auto simp: deleteSession_def Let_def w5_def)+
    with r6 s6 e6 None t dc show ?thesis
      by (auto simp: logout_or_destroy_result split: option.splits if_splits)
  qed
qed

theorem deleteSession_registry_before_folder_witness:
  "fst (deleteSession example_ext example_config world_zz ''zz'' connected_validation)
     = Inl (SystemError ''ENOENT'' ''realpath'' ''/data/sessions/session-zz'')
   \<and> sessions (snd (deleteSession example_ext example_config world_zz ''zz'' connected_validation)) ''zz''
     = None
   \<and> fst (deleteSession failing_logout_ext example_config world_a ''a'' connected_validation)
     = Inl (Error ''Protocol error'')
   \<and> sessions (snd (deleteSession failing_logout_ext example_config world_a ''a'' connected_validation)) ''a''
     \<noteq> None"
proof -
  obtain cz where regz: "sessions world_zz ''zz'' = Some cz"
    using world_zz_registered by blast
  obtain rz wz where runz:
    "deleteSession example_ext example_config world_zz ''zz'' connected_validation = (rz, wz)"
    by (cases "deleteSession example_ext example_config world_zz ''zz'' connected_validation")
  have quiet: "fst (disconnect_client example_ext world_zz ''zz'' cz connected_validation) = None"
    by (simp add: disconnect_client_def logout_or_destroy_def Let_def example_ext_def
          connected_validation_def split: prod.splits)
  have folder: "fst (deleteSessionFolder example_config world_zz ''zz'')
                  = Inl (SystemError ''ENOENT'' ''realpath'' ''/data/sessions/session-zz'')"
    by code_simp
  obtain ca where rega: "sessions world_a ''a'' = Some ca"
    using world_a_registered by blast
  obtain ra wa where runa:
    "deleteSession failing_logout_ext example_config world_a ''a'' connected_validation = (ra, wa)"
    by (cases "deleteSession failing_logout_ext example_config world_a ''a'' connected_validation")
  have threw: "success connected_validation
                 \<and> logout failing_logout_ext ''a'' = Some (Error ''Protocol error'')"
    by (simp add: connected_validation_def failing_logout_ext_def)
  show ?thesis
    using deleteSession_registry_before_folder [OF regz runz] quiet folder runz
          deleteSession_registry_before_folder [OF rega runa] threw runa
    by simp
qed


section \<open>flushSessions\<close>

lemma flush_loop_append:
  "flush_loop E cfg d w (xs @ ys) =
     (case flush_loop E cfg d w xs of
        None \<Rightarrow> None
      | Some (Inl e, w1) \<Rightarrow> Some (Inl e, w1)
      | Some (Inr u, w1) \<Rightarrow> flush_loop E cfg d w1 ys)"
proof (induction xs arbitrary: w)
  case Nil
  then show ?case by simp
next
  case (Cons x xs)
  then show ?case
    by (simp split: option.split sum.split prod.split)
qed

lemma processed_flush_loop:
  "processed E cfg d w names w' \<Longrightarrow> flush_loop E cfg d w names = Some (Inr (), w')"
proof (induction rule: processed.induct)
  case (nothing E cfg d w)
  show ?case by simp
next
  case (skipped entry E cfg d w rest w')
  then show ?case by (simp add: flush_item_def)
next
  case (kept entry sessionId E w v w1 d cfg rest w')
  then show ?case by (simp add: flush_item_def)
next
  case (deleted entry sessionId E w v w1 d cfg w2 rest w')
  then show ?case by (auto simp: flush_item_def)
qed

lemma flush_item_returns: "\<exists>r w'. flush_item E cfg d w file = Some (r, w')"
proof (cases "match_session file")
  case None
  then show ?thesis by (simp add: flush_item_def)
next
  case (Some sessionId)
  obtain v w1 where "validateSession E w sessionId = Some (v, w1)"
    using validateSession_returns by blast
  with Some show ?thesis
    by (cases "deleteSession E cfg w1 sessionId v") (simp add: flush_item_def)
qed

lemma flush_loop_returns: "\<exists>r w'. flush_loop E cfg d w names = Some (r, w')"
proof (induction names arbitrary: w)
  case Nil
  show ?case by simp
next
  case (Cons entry rest)
  obtain r w1 where item: "flush_item E cfg d w entry = Some (r, w1)"
    using flush_item_returns by blast
  show ?case
  proof (cases r)
    case (Inl e)
    with item show ?thesis by simp
  next
    case (Inr u)
    with item Cons.IH [of w1] show ?thesis by simp
  qed
qed

text \<open>
  C4. Over the listing of the storage root, \<open>flushSessions\<close> always returns. When every
  entry is gone through with no exception (a folder's session is validated, then deleted
  unless only inactive ones are to go and the validation succeeded), the flush ends well
  in the state the last entry left. When the entries before some folder are gone
  through so and the \<open>deleteSession\<close> of that folder throws, the flush stops there: the
  error is logged and thrown on to the caller, and the state is the one that
  \<open>deleteSession\<close> left, whatever entries follow in the listing.
\<close>

theorem flushSessions_stops_at_first_failure:
  assumes listing: "readdir (files w) (process_cwd cfg) (sessionFolderPath cfg) = Inr names"
  shows "(\<exists>r w'. flushSessions E cfg w deleteOnlyInactive = Some (r, w'))
         \<and> (\<forall>w'. processed E cfg deleteOnlyInactive w names w' \<longrightarrow>
                flushSessions E cfg w deleteOnlyInactive = Some (Inr (), w'))
         \<and> (\<forall>earlier file later sessionId v w1 w2 w3 e.
                names = earlier @ file # later
                \<and> processed E cfg deleteOnlyInactive w earlier w1
                \<and> match_session file = Some sessionId
                \<and> validateSession E w1 sessionId = Some (v, w2)
                \<and> \<not> (deleteOnlyInactive \<and> success v)
                \<and> deleteSession E cfg w2 sessionId v = (Inl e, w3)
                \<longrightarrow> flushSessions E cfg w deleteOnlyInactive
                      = Some (Inl e, do_call (Logger ''error'' ''Failed to flush sessions'') w3))"
proof (intro conjI allI impI)
  obtain r w' where "flush_loop E cfg deleteOnlyInactive w names = Some (r, w')"
    using flush_loop_returns by blast
  with listing show "\<exists>r w'. flushSessions E cfg w deleteOnlyInactive = Some (r, w')"
    by (cases r) (simp_all add: flushSessions_def)
next
  fix w'
  assume "processed E cfg deleteOnlyInactive w names w'"
  then have "flush_loop E cfg deleteOnlyInactive w names = Some (Inr (), w')"
    by (rule processed_flush_loop)
  with listing show "flushSessions E cfg w deleteOnlyInactive = Some (Inr (), w')"
    by (simp add: flushSessions_def)
next
  fix earlier entry later sessionId v w1 w2 w3 e
  assume a: "names = earlier @ entry # later
             \<and> processed E cfg deleteOnlyInactive w earlier w1
             \<and> match_session entry = Some sessionId
             \<and> validateSession E w1 sessionId = Some (v, w2)
             \<and> \<not> (deleteOnlyInactive \<and> success v)
             \<and> deleteSession E cfg w2 sessionId v = (Inl e, w3)"
  then have pre: "flush_loop E cfg deleteOnlyInactive w earlier = Some (Inr (), w1)"
    using processed_flush_loop by blast
  from a have item: "flush_item E cfg deleteOnlyInactive w1 entry = Some (Inl e, w3)"
    by (auto simp: flush_item_def)
  from a pre item have "flush_loop E cfg deleteOnlyInactive w names = Some (Inl e, w3)"
    by (simp add: flush_loop_append)
  with listing show "flushSessions E cfg w deleteOnlyInactive
                       = Some (Inl e, do_call (Logger ''error'' ''Failed to flush sessions'') w3)"
    by (simp add: flushSessions_def)
qed


lemma validateSession_connected:
  assumes "sessions w sessionId = Some cl"
    and "pupPage_probe E sessionId 0 = Evaluated"
    and "getState E sessionId = Inr (Some ''CONNECTED'')"
  shows "validateSession E w sessionId = Some (connected_validation, w)"
  using assms by (simp add: validateSession_def pupPage_loop_0 connected_validation_def)

text \<open>
  The listing is \<open>scratch\<close>, \<open>session-a\<close>, \<open>session-b\<close>, \<open>session-c\<close>: the file is passed
  over, session \<open>a\<close> is validated and deleted, and the \<open>logout\<close> of session \<open>b\<close> throws.
\<close>

theorem flushSessions_stops_at_first_failure_witness:
  "map_option fst (flushSessions failing_logout_b_ext example_config flush_world False)
     = Some (Inl (Error ''Protocol error''))"
proof -
  define w1 where
    "w1 = snd (deleteSession failing_logout_b_ext example_config flush_world ''a'' connected_validation)"
  define w2 where
    "w2 = snd (deleteSession failing_logout_b_ext example_config w1 ''b'' connected_validation)"
  have listing: "readdir (files flush_world) (process_cwd example_config) (sessionFolderPath example_config)
                   = Inr [''scratch'', ''session-a'', ''session-b'', ''session-c'']"
    by code_simp
  have probe: "pupPage_probe failing_logout_b_ext ''a'' 0 = Evaluated"
    "pupPage_probe failing_logout_b_ext ''b'' 0 = Evaluated"
    "getState failing_logout_b_ext ''a'' = Inr (Some ''CONNECTED'')"
    "getState failing_logout_b_ext ''b'' = Inr (Some ''CONNECTED'')"
    by (simp_all add: failing_logout_b_ext_def example_ext_def)
  have "sessions flush_world ''a'' \<noteq> None"
    by code_simp
  then obtain ca where "sessions flush_world ''a'' = Some ca"
    by blast
  then have va: "validateSession failing_logout_b_ext flush_world ''a'' = Some (connected_validation, flush_world)"
    using probe by (simp add: validateSession_connected)
  have "fst (deleteSession failing_logout_b_ext example_config flush_world ''a'' connected_validation) = Inr ()"
    by code_simp
  then have da: "deleteSession failing_logout_b_ext example_config flush_world ''a'' connected_validation
                  = (Inr (), w1)"
    unfolding w1_def by (metis prod.collapse)
  have m0: "match_session ''scratch'' = None"
    by code_simp
  have ma: "match_session ''session-a'' = Some ''a''"
    by code_simp
  have mb: "match_session ''session-b'' = Some ''b''"
    by code_simp
  have sel: "\<not> (False \<and> success connected_validation)"
    by simp
  have before: "processed failing_logout_b_ext example_config False flush_world
                  [''scratch'', ''session-a''] w1"
    by (rule processed.skipped [OF m0 processed.deleted [OF ma va sel da processed.nothing]])
  have "sessions w1 ''b'' \<noteq> None"
    unfolding w1_def by code_simp
  then obtain cb where "sessions w1 ''b'' = Some cb"
    by blast
  then have vb: "validateSession failing_logout_b_ext w1 ''b'' = Some (connected_validation, w1)"
    using probe by (simp add: validateSession_connected)
  have "fst (deleteSession failing_logout_b_ext example_config w1 ''b'' connected_validation)
          = Inl (Error ''Protocol error'')"
    unfolding w1_def by code_simp
  then have db: "deleteSession failing_logout_b_ext example_config w1 ''b'' connected_validation
                  = (Inl (Error ''Protocol error''), w2)"
    unfolding w2_def by (metis prod.collapse)
  have split: "[''scratch'', ''session-a'', ''session-b'', ''session-c'']
                 = [''scratch'', ''session-a''] @ ''session-b'' # [''session-c'']"
    by simp
  have "flushSessions failing_logout_b_ext example_config flush_world False
          = Some (Inl (Error ''Protocol error''),
                  do_call (Logger ''error'' ''Failed to flush sessions'') w2)"
    using flushSessions_stops_at_first_failure [OF listing, of failing_logout_b_ext False]
          split before mb vb sel db
    by blast
  then show ?thesis by simp
qed

text \<open>
  C4 as stated fails: the folders of \<open>a\<close> and \<open>b\<close> are listed in this order and \<open>logout\<close>
  rejects for \<open>a\<close>. The flush throws that error to its caller; session \<open>b\<close> is still
  registered, its folder is still there, and no teardown call was made for it.
\<close>

theorem flushSessions_aborts_on_failed_item:
  "readdir (files world_ab) ''/app'' ''/data/sessions'' = Inr [''session-a'', ''session-b'']
   \<and> map_option fst (flushSessions failing_logout_ext example_config world_ab False)
       = Some (Inl (Error ''Protocol error''))
   \<and> map_option (registered ''b'' \<circ> snd) (flushSessions failing_logout_ext example_config world_ab False)
       = Some True
   \<and> map_option (has_folder ''b'' \<circ> snd) (flushSessions failing_logout_ext example_config world_ab False)
       = Some True
   \<and> map_option (called_for ''b'' \<circ> snd) (flushSessions failing_logout_ext example_config world_ab False)
       = Some False"
  by code_simp

section \<open>The event handlers\<close>

lemma handle_listeners: "listeners (fst (handle cfg l ev cl)) = listeners cl"
  by (cases "(cfg, l, ev, cl)" rule: handle.cases) simp_all

lemma run_listeners_listeners: "listeners (fst (run_listeners cfg ev ls cl)) = listeners cl"
proof (induction ls arbitrary: cl)
  case Nil
  then show ?case by simp
next
  case (Cons l ls)
  obtain cl1 xs where h: "handle cfg l ev cl = (cl1, xs)"
    by (cases "handle cfg l ev cl")
  obtain cl2 ys where r: "run_listeners cfg ev ls cl1 = (cl2, ys)"
    by (cases "run_listeners cfg ev ls cl1")
  have "listeners cl1 = listeners cl"
    using handle_listeners [of cfg l ev cl] h by simp
  moreover have "listeners cl2 = listeners cl1"
    using Cons.IH [of cl1] r by simp
  ultimately show ?case
    using h r by simp
qed

lemma emit_listeners: "listeners (fst (emit cfg cl ev)) = listeners cl"
  by (simp add: emit_def run_listeners_listeners)

lemma run_listeners_append:
  "run_listeners cfg ev (xs @ ys) cl =
     (case run_listeners cfg ev xs cl of
        (cl1, a) \<Rightarrow> (case run_listeners cfg ev ys cl1 of (cl2, b) \<Rightarrow> (cl2, a @ b)))"
  by (induction xs arbitrary: cl) (simp_all split: prod.splits)

lemma run_listeners_silent:
  assumes "\<And>l cl'. l \<in> set ls \<Longrightarrow> handle cfg l ev cl' = (cl', [])"
  shows "run_listeners cfg ev ls cl = (cl, [])"
  using assms by (induction ls arbitrary: cl) simp_all

lemma on_if_enabled_member:
  assumes "l \<in> set (on_if_enabled cfg url sessionId p)"
  shows "\<exists>c d. l = Forward c d url sessionId \<and> isEventEnabled cfg c"
  using assms by (cases p) (auto simp: on_if_enabled_def split: if_splits)

lemma forwards_silent_on_message:
  "run_listeners cfg (MessageEvent m) (concat (map (on_if_enabled cfg0 url sessionId) cats)) cl = (cl, [])"
  by (rule run_listeners_silent) (auto dest!: on_if_enabled_member)

lemma forwards_silent_on_qr:
  "run_listeners cfg (QrEvent q) (concat (map (on_if_enabled cfg0 url sessionId) cats)) cl = (cl, [])"
  by (rule run_listeners_silent) (auto dest!: on_if_enabled_member)

lemma initializeEvents_listeners:
  "listeners cl = [] \<Longrightarrow>
   listeners (initializeEvents cfg cl sessionId) =
     concat (map (on_if_enabled cfg (sessionWebhook cfg sessionId) sessionId) categories_before_message)
     @ [OnMessage (sessionWebhook cfg sessionId) sessionId (maxAttachmentSize cfg) (setMessagesAsSeen cfg)]
     @ concat (map (on_if_enabled cfg (sessionWebhook cfg sessionId) sessionId) categories_before_qr)
     @ [OnQr (sessionWebhook cfg sessionId) sessionId]
     @ concat (map (on_if_enabled cfg (sessionWebhook cfg sessionId) sessionId) categories_after_qr)"
  by (simp add: initializeEvents_def Let_def)

lemma emit_message:
  assumes "listeners cl0 = []" and "listeners cl = listeners (initializeEvents cfg0 cl0 sessionId)"
  shows "emit cfg cl (MessageEvent m)
           = handle cfg (OnMessage (sessionWebhook cfg0 sessionId) sessionId
                          (maxAttachmentSize cfg0) (setMessagesAsSeen cfg0)) (MessageEvent m) cl"
  using assms
  by (simp add: emit_def initializeEvents_listeners run_listeners_append
        forwards_silent_on_message split: prod.splits)

lemma emit_qr:
  assumes "listeners cl0 = []" and "listeners cl = listeners (initializeEvents cfg0 cl0 sessionId)"
  shows "emit cfg cl (QrEvent q)
           = handle cfg (OnQr (sessionWebhook cfg0 sessionId) sessionId) (QrEvent q) cl"
  using assms
  by (simp add: emit_def initializeEvents_listeners run_listeners_append
        forwards_silent_on_qr split: prod.splits)

lemma emit_disabled_category:
  assumes "listeners cl0 = []" and "listeners cl = listeners (initializeEvents cfg0 cl0 sessionId)"
    and "\<not> isEventEnabled cfg0 category"
  shows "emit cfg cl (Event category) = (cl, [])"
proof -
  have "run_listeners cfg (Event category) (listeners cl) cl = (cl, [])"
  proof (rule run_listeners_silent)
    fix l cl'
    assume "l \<in> set (listeners cl)"
    then have "l = OnMessage (sessionWebhook cfg0 sessionId) sessionId
                     (maxAttachmentSize cfg0) (setMessagesAsSeen cfg0)
               \<or> l = OnQr (sessionWebhook cfg0 sessionId) sessionId
               \<or> (\<exists>c d. l = Forward c d (sessionWebhook cfg0 sessionId) sessionId \<and> isEventEnabled cfg0 c)"
      using assms(1,2) by (auto simp: initializeEvents_listeners dest!: on_if_enabled_member)
    with assms(3) show "handle cfg l (Event category) cl' = (cl', [])"
      by auto
  qed
  then show ?thesis by (simp add: emit_def)
qed


lemma lifetime_disabled_category:
  assumes fresh: "listeners cl0 = []"
    and disabled: "\<not> isEventEnabled cfg0 category"
    and other: "category \<noteq> ''message''" "category \<noteq> ''qr''"
  shows "listeners cl = listeners (initializeEvents cfg0 cl0 sessionId) \<Longrightarrow>
         (ev, calls) \<in> set (lifetime cl evs) \<Longrightarrow> event_category ev = category \<Longrightarrow> calls = []"
proof (induction evs arbitrary: cl)
  case Nil
  then show ?case by simp
next
  case (Cons x evs)
  obtain cfg ev' where x: "x = (cfg, ev')" by (cases x)
  obtain cl1 xs where e: "emit cfg cl ev' = (cl1, xs)" by (cases "emit cfg cl ev'")
  have l1: "listeners cl1 = listeners (initializeEvents cfg0 cl0 sessionId)"
    using emit_listeners [of cfg cl ev'] e Cons.prems(1) by simp
  from Cons.prems(2) x e have "(ev, calls) = (ev', xs) \<or> (ev, calls) \<in> set (lifetime cl1 evs)"
    by simp
  then show ?case
  proof
    assume here: "(ev, calls) = (ev', xs)"
    with Cons.prems(3) other have "ev' = Event category"
      by (cases ev') auto
    with e emit_disabled_category [OF fresh Cons.prems(1) disabled, of cfg] here show ?thesis
      by simp
  next
    assume "(ev, calls) \<in> set (lifetime cl1 evs)"
    with Cons.IH [OF l1] Cons.prems(3) show ?thesis by blast
  qed
qed

text \<open>
  C6. For a client set up under the configuration \<open>cfg0\<close>: a category other than
  \<open>message\<close> and \<open>qr\<close> that \<open>cfg0\<close> disables causes no call at all, in the whole life of
  the client and whatever the configuration is when its events fire. For \<open>message\<close> and
  \<open>qr\<close> the handler is always registered and the gate is read when the event fires: the
  sinks are called exactly when the category is enabled in the configuration of that
  moment.
\<close>

theorem gate_resolved_at_bind_time:
  assumes fresh: "listeners cl0 = []"
    and bound: "cl = initializeEvents cfg0 cl0 sessionId"
  shows "(\<forall>category ev calls.
            \<not> isEventEnabled cfg0 category \<and> category \<noteq> ''message'' \<and> category \<noteq> ''qr''
            \<and> (ev, calls) \<in> set (lifetime cl evs) \<and> event_category ev = category
            \<longrightarrow> calls = [])
         \<and> filter is_sink_call (snd (emit cfg cl (MessageEvent \<lparr>hasMedia = False, data_size = None, downloadMedia = None\<rparr>)))
             = (if isEventEnabled cfg ''message''
                then [TriggerWebhook (sessionWebhook cfg0 sessionId) sessionId ''message'',
                      TriggerWebSocket sessionId ''message'']
                else [])
         \<and> filter is_sink_call (snd (emit cfg cl (QrEvent q)))
             = (if isEventEnabled cfg ''qr''
                then [TriggerWebhook (sessionWebhook cfg0 sessionId) sessionId ''qr'',
                      TriggerWebSocket sessionId ''qr'']
                else [])"
proof -
  have same: "listeners cl = listeners (initializeEvents cfg0 cl0 sessionId)"
    using bound by simp
  have "\<And>category ev calls.
          \<not> isEventEnabled cfg0 category \<Longrightarrow> category \<noteq> ''message'' \<Longrightarrow> category \<noteq> ''qr''
          \<Longrightarrow> (ev, calls) \<in> set (lifetime cl evs) \<Longrightarrow> event_category ev = category \<Longrightarrow> calls = []"
    using lifetime_disabled_category [OF fresh _ _ _ same] by blast
  then show ?thesis
    by (auto simp: emit_message [OF fresh same] emit_qr [OF fresh same])
qed

theorem gate_resolved_at_bind_time_witness:
  "lifetime (initializeEvents (example_config\<lparr>disabledCallbacks := [''call'']\<rparr>) new_client ''a'')
     [(example_config, Event ''call''), (example_config, Event ''ready'')]
   = [(Event ''call'', []),
      (Event ''ready'', [TriggerWebhook ''http://hook'' ''a'' ''ready'', TriggerWebSocket ''a'' ''ready''])]"
proof -
  define cfg0 where "cfg0 = example_config\<lparr>disabledCallbacks := [''call'']\<rparr>"
  define cl where "cl = initializeEvents cfg0 new_client ''a''"
  define evs where "evs = [(example_config, Event ''call''), (example_config, Event ''ready'')]"
  have fresh: "listeners new_client = []"
    by (simp add: new_client_def)
  have off: "\<not> isEventEnabled cfg0 ''call''"
    by (simp add: isEventEnabled_def cfg0_def)
  have run: "map fst (lifetime cl evs) = [Event ''call'', Event ''ready'']
             \<and> snd (lifetime cl evs ! 1)
                 = [TriggerWebhook ''http://hook'' ''a'' ''ready'', TriggerWebSocket ''a'' ''ready'']"
    unfolding cl_def cfg0_def evs_def by code_simp
  then obtain c1 c2 where shape: "lifetime cl evs = [(Event ''call'', c1), (Event ''ready'', c2)]"
    by (auto simp: map_eq_Cons_conv)
  have mem: "(Event ''call'', c1) \<in> set (lifetime cl evs)"
    by (simp add: shape)
  have part: "\<forall>category ev calls.
          \<not> isEventEnabled cfg0 category \<and> category \<noteq> ''message'' \<and> category \<noteq> ''qr''
          \<and> (ev, calls) \<in> set (lifetime cl evs) \<and> event_category ev = category
          \<longrightarrow> calls = []"
    by (rule gate_resolved_at_bind_time [OF fresh cl_def, of evs, THEN conjunct1])
  have "\<not> isEventEnabled cfg0 ''call'' \<and> ''call'' \<noteq> ''message'' \<and> ''call'' \<noteq> ''qr''
        \<and> (Event ''call'', c1) \<in> set (lifetime cl evs) \<and> event_category (Event ''call'') = ''call''"
    using off mem by simp
  then have "c1 = []"
    by (rule part [rule_format, of "''call''" "Event ''call''" c1])
  moreover from run shape have "c2 = [TriggerWebhook ''http://hook'' ''a'' ''ready'', TriggerWebSocket ''a'' ''ready'']"
    by simp
  ultimately have "lifetime cl evs
      = [(Event ''call'', []),
         (Event ''ready'', [TriggerWebhook ''http://hook'' ''a'' ''ready'', TriggerWebSocket ''a'' ''ready''])]"
    using shape by simp
  then show ?thesis
    unfolding cl_def cfg0_def evs_def .
qed

text \<open>
  C6 as stated fails for \<open>message\<close>: the category is disabled when the client is set
  up and enabled when a message arrives, and both sinks are called.
\<close>

theorem gate_reevaluated_for_message:
  "\<not> isEventEnabled message_disabled_config ''message''
   \<and> filter is_sink_call
        (snd (emit example_config (initializeEvents message_disabled_config new_client ''a'')
                (MessageEvent text_message)))
     = [TriggerWebhook ''http://hook'' ''a'' ''message'', TriggerWebSocket ''a'' ''message'']"
  by code_simp


text \<open>
  C9. A client is set up under \<open>cfg0\<close> and a message arrives while the configuration
  is \<open>cfg\<close>. The attachment is fetched exactly when the categories \<open>message\<close> and \<open>media\<close>
  are both enabled in \<open>cfg\<close>, the message has media and its size is below the ceiling
  of \<open>cfg0\<close>; the \<open>media\<close> envelope goes to the webhook and to the realtime sink exactly
  when that fetch resolves. The acknowledgment is sent exactly when \<open>setMessagesAsSeen\<close>
  is set in \<open>cfg0\<close>, as the last call and right after the delay of 1000 ms. With the
  category \<open>message\<close> disabled the delay and the acknowledgment are all that happens.
\<close>

theorem message_side_effects:
  assumes fresh: "listeners cl0 = []"
    and bound: "listeners cl = listeners (initializeEvents cfg0 cl0 sessionId)"
    and fired: "emit cfg cl (MessageEvent m) = (cl', calls)"
  shows "(DownloadMedia \<in> set calls \<longleftrightarrow>
            isEventEnabled cfg ''message'' \<and> isEventEnabled cfg ''media'' \<and> hasMedia m
            \<and> (\<exists>n. data_size m = Some n \<and> n < maxAttachmentSize cfg0))
         \<and> (TriggerWebhook (sessionWebhook cfg0 sessionId) sessionId ''media'' \<in> set calls \<longleftrightarrow>
              DownloadMedia \<in> set calls \<and> downloadMedia m = None)
         \<and> (TriggerWebSocket sessionId ''media'' \<in> set calls \<longleftrightarrow>
              DownloadMedia \<in> set calls \<and> downloadMedia m = None)
         \<and> (SendMessageSeenStatus \<in> set calls \<longleftrightarrow> setMessagesAsSeen cfg0)
         \<and> (Sleep 1000 \<in> set calls \<longleftrightarrow> setMessagesAsSeen cfg0)
         \<and> (setMessagesAsSeen cfg0 \<longrightarrow>
              (\<exists>earlier. calls = earlier @ [Sleep 1000, SendMessageSeenStatus]))
         \<and> (\<not> isEventEnabled cfg ''message'' \<longrightarrow>
              calls = (if setMessagesAsSeen cfg0 then [Sleep 1000, SendMessageSeenStatus] else []))"
proof -
  define gated where
    "gated = (if isEventEnabled cfg ''message'' then
                [TriggerWebhook (sessionWebhook cfg0 sessionId) sessionId ''message'',
                 TriggerWebSocket sessionId ''message'']
                @ (if hasMedia m \<and> (case data_size m of None \<Rightarrow> False
                                       | Some n \<Rightarrow> n < maxAttachmentSize cfg0)
                   then
                     (if isEventEnabled cfg ''media'' then
                        DownloadMedia #
                        (case downloadMedia m of
                           None \<Rightarrow> [TriggerWebhook (sessionWebhook cfg0 sessionId) sessionId ''media'',
                                    TriggerWebSocket sessionId ''media'']
                         | Some e \<Rightarrow> [Logger ''error'' ''Failed to download media''])
                      else [])
                   else [])
              else [])"
  define seen where
    "seen = (if setMessagesAsSeen cfg0 then [Sleep 1000, SendMessageSeenStatus] else [])"
  have calls: "calls = gated @ seen"
    using fired unfolding emit_message [OF fresh bound] gated_def seen_def by simp
  have g1: "DownloadMedia \<in> set gated \<longleftrightarrow>
              isEventEnabled cfg ''message'' \<and> isEventEnabled cfg ''media'' \<and> hasMedia m
              \<and> (\<exists>n. data_size m = Some n \<and> n < maxAttachmentSize cfg0)"
    unfolding gated_def by (cases "data_size m"; cases "downloadMedia m") auto
  have g2: "TriggerWebhook (sessionWebhook cfg0 sessionId) sessionId ''media'' \<in> set gated \<longleftrightarrow>
              DownloadMedia \<in> set gated \<and> downloadMedia m = None"
    unfolding gated_def by (cases "data_size m"; cases "downloadMedia m") auto
  have g3: "TriggerWebSocket sessionId ''media'' \<in> set gated \<longleftrightarrow>
              DownloadMedia \<in> set gated \<and> downloadMedia m = None"
    unfolding gated_def by (cases "data_size m"; cases "downloadMedia m") auto
  have g4: "SendMessageSeenStatus \<notin> set gated" "Sleep 1000 \<notin> set gated"
    unfolding gated_def by (cases "data_size m"; cases "downloadMedia m"; auto)+
  have g5: "\<not> isEventEnabled cfg ''message'' \<Longrightarrow> gated = []"
    unfolding gated_def by simp
  have s1: "SendMessageSeenStatus \<in> set seen \<longleftrightarrow> setMessagesAsSeen cfg0"
    "Sleep 1000 \<in> set seen \<longleftrightarrow> setMessagesAsSeen cfg0"
    "DownloadMedia \<notin> set seen"
    "TriggerWebhook (sessionWebhook cfg0 sessionId) sessionId ''media'' \<notin> set seen"
    "TriggerWebSocket sessionId ''media'' \<notin> set seen"
    unfolding seen_def by simp_all
  have s2: "setMessagesAsSeen cfg0 \<Longrightarrow> calls = gated @ [Sleep 1000, SendMessageSeenStatus]"
    unfolding calls seen_def by simp
  show ?thesis
    using g1 g2 g3 g4 g5 s1 s2 unfolding calls
    by (auto simp: seen_def)
qed

text \<open>
  The client is set up under \<open>example_config\<close>. A message then arrives under a
  configuration in which the gate is closed and the acknowledgment switched off, and
  under one with the ceiling lowered to nothing: the acknowledgment and the fetch
  follow the values of the setup.
\<close>

theorem message_side_effects_witness:
  "snd (emit changed_config (initializeEvents example_config new_client ''a'')
          (MessageEvent media_message))
     = [Sleep 1000, SendMessageSeenStatus]
   \<and> DownloadMedia \<in> set (snd (emit shrunk_config
        (initializeEvents example_config new_client ''a'') (MessageEvent media_message)))"
proof -
  have fresh: "listeners new_client = []"
    by (simp add: new_client_def)
  obtain c1 xs where off:
    "emit changed_config (initializeEvents example_config new_client ''a'')
       (MessageEvent media_message) = (c1, xs)"
    by (cases "emit changed_config (initializeEvents example_config new_client ''a'')
                 (MessageEvent media_message)")
  obtain c2 ys where on:
    "emit shrunk_config (initializeEvents example_config new_client ''a'')
       (MessageEvent media_message) = (c2, ys)"
    by (cases "emit shrunk_config (initializeEvents example_config new_client ''a'')
                 (MessageEvent media_message)")
  have seen: "setMessagesAsSeen example_config \<and> \<not> isEventEnabled changed_config ''message''"
    by (simp add: changed_config_def example_config_def isEventEnabled_def)
  have media: "isEventEnabled shrunk_config ''message'' \<and> isEventEnabled shrunk_config ''media''
               \<and> hasMedia media_message
               \<and> (\<exists>n. data_size media_message = Some n \<and> n < maxAttachmentSize example_config)"
    by (simp add: isEventEnabled_def shrunk_config_def example_config_def media_message_def)
  show ?thesis
    using message_side_effects [OF fresh refl off] message_side_effects [OF fresh refl on]
          seen media off on
    by simp
qed

text \<open>
  C9 as stated fails in its part (a): with the category \<open>message\<close> disabled, a message
  with an attachment below the ceiling causes no fetch and no sink call.
\<close>

theorem message_gate_suppresses_attachment_fetch:
  "hasMedia media_message \<and> data_size media_message = Some 10
   \<and> 10 < maxAttachmentSize message_disabled_config
   \<and> DownloadMedia \<notin> set (snd (emit message_disabled_config
        (initializeEvents message_disabled_config new_client ''a'') (MessageEvent media_message)))
   \<and> filter is_sink_call (snd (emit message_disabled_config
        (initializeEvents message_disabled_config new_client ''a'') (MessageEvent media_message))) = []"
  by code_simp


end
